theory Spec2Isabelle
  imports Main
begin

section \<open>Times, rows and slots\<close>

text \<open>
  A time of day is a whole number of minutes since midnight: the slots are formatted
  as \<^verbatim>\<open>HH:mm\<close>, the hours of a schedule are parsed with that format, and
  \<^verbatim>\<open>generateTimeSlots\<close> compares at the granularity \<^verbatim>\<open>'minute'\<close>. The start and end of
  an appointment are on whole minutes as well, and on whole minutes the comparisons of
  moment are the comparisons of the integers below. A moment that \<^verbatim>\<open>add\<close> has moved
  past midnight is the integer past 1440. A calendar date is a day number, day 0 being
  Thursday 1970-01-01. Of each table, the columns that the modelled code reads are
  kept.
\<close>

type_synonym time = int
type_synonym date = int

definition isBefore :: "time \<Rightarrow> time \<Rightarrow> bool" where
  "isBefore a b = (a < b)"

definition isAfter :: "time \<Rightarrow> time \<Rightarrow> bool" where
  "isAfter a b = (b < a)"

definition isSameOrBefore :: "time \<Rightarrow> time \<Rightarrow> bool" where
  "isSameOrBefore a b = (a \<le> b)"

definition isSameOrAfter :: "time \<Rightarrow> time \<Rightarrow> bool" where
  "isSameOrAfter a b = (b \<le> a)"

text \<open>\<^verbatim>\<open>x.isBetween(lo, hi, 'minute', '[)')\<close> and \<^verbatim>\<open>x.isBetween(lo, hi, 'minute', '(]')\<close>.\<close>

definition isBetween_closed_open :: "time \<Rightarrow> time \<Rightarrow> time \<Rightarrow> bool" where
  "isBetween_closed_open x lo hi = (lo \<le> x \<and> x < hi)"

definition isBetween_open_closed :: "time \<Rightarrow> time \<Rightarrow> time \<Rightarrow> bool" where
  "isBetween_open_closed x lo hi = (lo < x \<and> x \<le> hi)"

text \<open>\<^verbatim>\<open>moment(date).day()\<close>: 0 is Sunday.\<close>

definition day :: "date \<Rightarrow> nat" where
  "day d = nat ((d + 4) mod 7)"

text \<open>
  A row of \<^verbatim>\<open>physician_location_schedules\<close> joined with its location. The columns
  \<^verbatim>\<open>lunch_start\<close> and \<^verbatim>\<open>lunch_end\<close> are nullable; \<^verbatim>\<open>break_times\<close> is the JSONB array
  of break periods, each a pair of a start and an end.
\<close>

record schedule =
  physician_id :: nat
  location_id :: nat
  day_of_week :: nat
  start_time :: time
  end_time :: time
  lunch_start :: "time option"
  lunch_end :: "time option"
  break_times :: "(time \<times> time) list"
  is_active :: bool

text \<open>The status column of \<^verbatim>\<open>appointments\<close>, as its CHECK constraint lists it.\<close>

datatype status = Scheduled | Confirmed | Checked_in | In_progress | Completed
  | Cancelled | No_show | Rescheduled

record appointment =
  apt_id :: nat
  apt_patient_id :: nat
  apt_physician_id :: nat
  apt_location_id :: nat
  apt_appointment_date :: date
  apt_start_time :: time
  apt_end_time :: time
  apt_status :: status

text \<open>An element of the array that \<^verbatim>\<open>generateTimeSlots\<close> returns.\<close>

record slot =
  slot_start :: time
  slot_end :: time
  slot_available :: bool

section \<open>generateTimeSlots\<close>

text \<open>The test of the lunch window (the \<^verbatim>\<open>if\<close> under "Skip lunch time").\<close>

definition skipLunch :: "schedule \<Rightarrow> time \<Rightarrow> time \<Rightarrow> bool" where
  "skipLunch sch currentTime slotEnd =
     (case lunch_start sch of
        None \<Rightarrow> False
      | Some lunchStart \<Rightarrow>
          (case lunch_end sch of
             None \<Rightarrow> False
           | Some lunchEnd \<Rightarrow>
               isBetween_closed_open currentTime lunchStart lunchEnd \<or>
               isBetween_open_closed slotEnd lunchStart lunchEnd))"

text \<open>The callback of \<^verbatim>\<open>bookedAppointments.some\<close>, and \<^verbatim>\<open>isBooked\<close>.\<close>

definition aptBlocks :: "time \<Rightarrow> time \<Rightarrow> appointment \<Rightarrow> bool" where
  "aptBlocks currentTime slotEnd apt =
     (let aptStart = apt_start_time apt; aptEnd = apt_end_time apt
      in isBetween_closed_open currentTime aptStart aptEnd \<or>
         isBetween_open_closed slotEnd aptStart aptEnd \<or>
         (isSameOrBefore currentTime aptStart \<and> isSameOrAfter slotEnd aptEnd))"

definition isBooked :: "appointment list \<Rightarrow> time \<Rightarrow> time \<Rightarrow> bool" where
  "isBooked bookedAppointments currentTime slotEnd =
     list_ex (aptBlocks currentTime slotEnd) bookedAppointments"

text \<open>
  The \<^verbatim>\<open>while\<close> loop, with \<^verbatim>\<open>currentTime\<close> and \<^verbatim>\<open>slots\<close> as its state. The loop
  has no bound of its own, so a run that never leaves it is the value \<open>None\<close>.
\<close>

partial_function (option) sweep ::
  "schedule \<Rightarrow> appointment list \<Rightarrow> int \<Rightarrow> time \<Rightarrow> slot list \<Rightarrow> slot list option" where
  "sweep sch bookedAppointments slotDuration currentTime slots =
     (if isBefore currentTime (end_time sch) then
        (let slotEnd = currentTime + slotDuration in
         if isAfter slotEnd (end_time sch) then Some slots
         else if skipLunch sch currentTime slotEnd then
           sweep sch bookedAppointments slotDuration (currentTime + slotDuration) slots
         else if \<not> isBooked bookedAppointments currentTime slotEnd then
           sweep sch bookedAppointments slotDuration (currentTime + slotDuration)
             (slots @ [\<lparr>slot_start = currentTime, slot_end = slotEnd, slot_available = True\<rparr>])
         else
           sweep sch bookedAppointments slotDuration (currentTime + slotDuration) slots)
      else Some slots)"

declare sweep.simps [code]

definition generateTimeSlots :: "schedule \<Rightarrow> appointment list \<Rightarrow> int \<Rightarrow> slot list option" where
  "generateTimeSlots sch bookedAppointments slotDuration =
     sweep sch bookedAppointments slotDuration (start_time sch) []"


section \<open>The availability handler\<close>

text \<open>
  A row of \<^verbatim>\<open>physician_availability_exceptions\<close>. Its location is nullable, as are
  its start and end time and its reason.
\<close>

record availability_exception =
  exc_physician_id :: nat
  exc_location_id :: "nat option"
  exc_exception_date :: date
  exc_exception_type :: string
  exc_start_time :: "time option"
  exc_end_time :: "time option"
  exc_reason :: "string option"

record physician_location =
  pl_physician_id :: nat
  pl_location_id :: nat

record patient =
  pat_id :: nat
  pat_user_id :: nat

record physician_row =
  phys_id :: nat
  phys_specialty :: string

text \<open>The tables the handlers read, each as the list of its rows.\<close>

record database =
  physician_location_schedules :: "schedule list"
  appointments :: "appointment list"
  physician_availability_exceptions :: "availability_exception list"
  physician_locations :: "physician_location list"
  patients :: "patient list"
  physicians :: "physician_row list"

text \<open>
  The responses that are not a success: 400 "Date is required", 400 "Patient profile
  not found", 400 "Physician not available at this location", 400 "Time slot is no
  longer available", 404 "Appointment not found", 403 "Unauthorized", and the 500 of
  the \<^verbatim>\<open>catch\<close> blocks.
\<close>

datatype error = DateRequired | PatientProfileNotFound | PhysicianNotAtLocation
  | SlotConflict | AppointmentNotFound | Unauthorized | ServerError

text \<open>
  An element of \<^verbatim>\<open>locationAvailability\<close>. The field \<^verbatim>\<open>reason\<close> is only present in
  the object built for an unavailable location, where it holds the nullable column.
\<close>

record location_report =
  rep_location_id :: nat
  rep_available :: bool
  rep_slots :: "slot list"
  rep_reason :: "string option option"

record availability_response =
  res_available :: bool
  res_locations :: "location_report list"

text \<open>The status test of the queries: \<^verbatim>\<open>status NOT IN ('cancelled', 'no_show')\<close>.\<close>

definition occupies :: "appointment \<Rightarrow> bool" where
  "occupies apt = (apt_status apt \<noteq> Cancelled \<and> apt_status apt \<noteq> No_show)"

text \<open>The part of the callback under "Generate available slots".\<close>

definition slotsReport :: "schedule \<Rightarrow> appointment list \<Rightarrow> location_report option" where
  "slotsReport sch locationAppointments =
     (case generateTimeSlots sch locationAppointments 30 of
        None \<Rightarrow> None
      | Some slots \<Rightarrow>
          Some \<lparr>rep_location_id = location_id sch, rep_available = (length slots > 0),
                rep_slots = slots, rep_reason = None\<rparr>)"

text \<open>The callback of \<^verbatim>\<open>schedules.rows.map\<close>.\<close>

definition locationReport ::
  "appointment list \<Rightarrow> availability_exception list \<Rightarrow> schedule \<Rightarrow> location_report option" where
  "locationReport appointmentRows exceptionRows sch =
     (let locationAppointments =
            filter (\<lambda>apt. apt_location_id apt = location_id sch) appointmentRows;
          locationException =
            find (\<lambda>exc. exc_location_id exc = Some (location_id sch)) exceptionRows
      in case locationException of
           Some exc \<Rightarrow>
             if exc_exception_type exc = ''unavailable'' then
               Some \<lparr>rep_location_id = location_id sch, rep_available = False,
                     rep_slots = [], rep_reason = Some (exc_reason exc)\<rparr>
             else slotsReport sch locationAppointments
         | None \<Rightarrow> slotsReport sch locationAppointments)"

text \<open>
  The three queries of \<^verbatim>\<open>GET /api/physicians/:id/availability\<close> as filters of the
  tables: the active schedules of the physician for the day of the week, at one
  location when \<^verbatim>\<open>locationId\<close> is given; the appointments of the physician on the date
  that are neither cancelled nor no-show; the exceptions of the physician on the date.
\<close>

definition schedulesQuery :: "database \<Rightarrow> nat \<Rightarrow> nat \<Rightarrow> nat option \<Rightarrow> schedule list" where
  "schedulesQuery db pid dayOfWeek locationId =
     filter (\<lambda>pls. physician_id pls = pid \<and> day_of_week pls = dayOfWeek \<and> is_active pls \<and>
                    (case locationId of None \<Rightarrow> True | Some l \<Rightarrow> location_id pls = l))
       (physician_location_schedules db)"

definition appointmentsQuery :: "database \<Rightarrow> nat \<Rightarrow> date \<Rightarrow> appointment list" where
  "appointmentsQuery db pid date =
     filter (\<lambda>apt. apt_physician_id apt = pid \<and> apt_appointment_date apt = date \<and> occupies apt)
       (appointments db)"

definition exceptionsQuery :: "database \<Rightarrow> nat \<Rightarrow> date \<Rightarrow> availability_exception list" where
  "exceptionsQuery db pid date =
     filter (\<lambda>exc. exc_physician_id exc = pid \<and> exc_exception_date exc = date)
       (physician_availability_exceptions db)"

text \<open>
  The handler; \<open>pid\<close> is the \<^verbatim>\<open>id\<close> of the path. The outer \<open>option\<close> is \<open>None\<close> when a
  call of the slot loop does not return.
\<close>

definition getAvailability ::
  "database \<Rightarrow> nat \<Rightarrow> date option \<Rightarrow> nat option \<Rightarrow> (error + availability_response) option" where
  "getAvailability db pid dateParam locationId =
     (case dateParam of
        None \<Rightarrow> Some (Inl DateRequired)
      | Some date \<Rightarrow>
          (let dayOfWeek = day date;
               schedules = schedulesQuery db pid dayOfWeek locationId
           in if length schedules = 0 then
                Some (Inr \<lparr>res_available = False, res_locations = []\<rparr>)
              else
                (let appointmentRows = appointmentsQuery db pid date;
                     exceptionRows = exceptionsQuery db pid date
                 in case those (map (locationReport appointmentRows exceptionRows) schedules) of
                      None \<Rightarrow> None
                    | Some locationAvailability \<Rightarrow>
                        Some (Inr \<lparr>res_available = list_ex rep_available locationAvailability,
                                   res_locations = locationAvailability\<rparr>))))"

section \<open>The alternatives handler\<close>

text \<open>
  A row of the query for the physicians of the same specialty, one per physician and
  location, and an element of the \<^verbatim>\<open>alternatives\<close> array.
\<close>

record alternative_physician =
  alt_id :: nat
  alt_location_id :: nat

record alternative =
  opt_physician_id :: nat
  opt_location_id :: nat
  opt_date :: date
  opt_available_slots :: "slot list"

text \<open>
  The inner loop over \<^verbatim>\<open>i\<close>, from \<^verbatim>\<open>i\<close> to \<^verbatim>\<open>dateRange\<close>, for one physician row;
  \<^verbatim>\<open>today\<close> is the date of \<^verbatim>\<open>moment()\<close>.
\<close>

function daysLoop ::
  "database \<Rightarrow> date \<Rightarrow> nat \<Rightarrow> alternative_physician \<Rightarrow> nat \<Rightarrow> alternative list
     \<Rightarrow> alternative list option" where
  "daysLoop db today dateRange physician i alternatives =
     (if i < dateRange then
        (let checkDate = today + int i;
             dayOfWeek = day checkDate;
             scheduleRows =
               filter (\<lambda>pls. physician_id pls = alt_id physician \<and>
                              location_id pls = alt_location_id physician \<and>
                              day_of_week pls = dayOfWeek \<and> is_active pls)
                 (physician_location_schedules db)
         in case scheduleRows of
              [] \<Rightarrow> daysLoop db today dateRange physician (Suc i) alternatives
            | row0 # _ \<Rightarrow>
                (let existing =
                       filter (\<lambda>apt. apt_physician_id apt = alt_id physician \<and>
                                      apt_location_id apt = alt_location_id physician \<and>
                                      apt_appointment_date apt = checkDate \<and> occupies apt)
                         (appointments db)
                 in case generateTimeSlots row0 existing 30 of
                      None \<Rightarrow> None
                    | Some slots \<Rightarrow>
                        if length slots > 0 then
                          (let pushed = alternatives @
                                 [\<lparr>opt_physician_id = alt_id physician,
                                   opt_location_id = alt_location_id physician,
                                   opt_date = checkDate,
                                   opt_available_slots = take 3 slots\<rparr>]
                           in if length pushed \<ge> 10 then Some pushed
                              else daysLoop db today dateRange physician (Suc i) pushed)
                        else daysLoop db today dateRange physician (Suc i) alternatives))
      else Some alternatives)"
  by pat_completeness auto
termination
  by (relation "measure (\<lambda>(db, today, dateRange, physician, i, alternatives). dateRange - i)")
     auto

text \<open>The outer loop over the physician rows, and the array it leaves.\<close>

fun physiciansLoop ::
  "database \<Rightarrow> date \<Rightarrow> nat \<Rightarrow> alternative_physician list \<Rightarrow> alternative list
     \<Rightarrow> alternative list option" where
  "physiciansLoop db today dateRange [] alternatives = Some alternatives"
| "physiciansLoop db today dateRange (physician # rest) alternatives =
     (case daysLoop db today dateRange physician 0 alternatives of
        None \<Rightarrow> None
      | Some found \<Rightarrow>
          if length found \<ge> 10 then Some found
          else physiciansLoop db today dateRange rest found)"

definition collectAlternatives ::
  "database \<Rightarrow> date \<Rightarrow> nat \<Rightarrow> alternative_physician list \<Rightarrow> alternative list option" where
  "collectAlternatives db today dateRange alternativePhysicians =
     physiciansLoop db today dateRange alternativePhysicians []"






section \<open>The booking handlers\<close>

text \<open>
  \<^verbatim>\<open>req.user\<close>, and the fields of the body of \<^verbatim>\<open>POST /api/appointments\<close> that the
  handler reads before it writes.
\<close>

record user =
  usr_id :: nat
  usr_role :: string

record booking_request =
  req_patientId :: nat
  req_physicianId :: nat
  req_locationId :: nat
  req_appointmentDate :: date
  req_startTime :: time
  req_endTime :: time

text \<open>The block under "Get patient ID".\<close>

definition resolvePatient :: "database \<Rightarrow> user \<Rightarrow> booking_request \<Rightarrow> error + nat" where
  "resolvePatient db usr body =
     (if usr_role usr = ''patient'' then
        (case filter (\<lambda>p. pat_user_id p = usr_id usr) (patients db) of
           [] \<Rightarrow> Inl PatientProfileNotFound
         | p # _ \<Rightarrow> Inr (pat_id p))
      else Inr (req_patientId body))"

text \<open>The query under "Check slot availability".\<close>

definition existingAppointment :: "database \<Rightarrow> nat \<Rightarrow> nat \<Rightarrow> date \<Rightarrow> time \<Rightarrow> appointment list" where
  "existingAppointment db physicianId locationId appointmentDate startTime =
     filter (\<lambda>apt. apt_physician_id apt = physicianId \<and> apt_location_id apt = locationId \<and>
                    apt_appointment_date apt = appointmentDate \<and>
                    apt_start_time apt = startTime \<and> occupies apt)
       (appointments db)"

text \<open>
  What the statements after the check do to the tables (the inserts of the
  appointment, of its payment and of its reminders, and the commit) belongs to the
  database, so it is a parameter: from the tables, the patient and the body to the new
  row and the new tables, or \<open>None\<close> when a statement throws and the \<^verbatim>\<open>catch\<close> block
  rolls the transaction back.
\<close>

type_synonym insert_statement =
  "database \<Rightarrow> nat \<Rightarrow> booking_request \<Rightarrow> (appointment \<times> database) option"

text \<open>\<^verbatim>\<open>POST /api/appointments\<close>: the response and the tables after it.\<close>

definition createAppointment ::
  "insert_statement \<Rightarrow> database \<Rightarrow> user \<Rightarrow> booking_request \<Rightarrow> (error + appointment) \<times> database" where
  "createAppointment runInsert db usr body =
     (case resolvePatient db usr body of
        Inl e \<Rightarrow> (Inl e, db)
      | Inr patientId \<Rightarrow>
          (let physicianLocation =
                 filter (\<lambda>pl. pl_physician_id pl = req_physicianId body \<and>
                               pl_location_id pl = req_locationId body)
                   (physician_locations db)
           in if length physicianLocation = 0 then (Inl PhysicianNotAtLocation, db)
              else if length (existingAppointment db (req_physicianId body) (req_locationId body)
                                (req_appointmentDate body) (req_startTime body)) > 0
              then (Inl SlotConflict, db)
              else (case runInsert db patientId body of
                      None \<Rightarrow> (Inl ServerError, db)
                    | Some (newAppointment, db') \<Rightarrow> (Inr newAppointment, db'))))"

text \<open>
  The body of \<^verbatim>\<open>PUT /api/appointments/:id\<close>. A field that is absent or falsy is
  \<open>None\<close>, and \<open>orElse x y\<close> is \<^verbatim>\<open>x || y\<close>.
\<close>

record update_request =
  upd_status :: "status option"
  upd_appointmentDate :: "date option"
  upd_startTime :: "time option"
  upd_endTime :: "time option"
  upd_locationId :: "nat option"
  upd_physicianId :: "nat option"

definition orElse :: "'a option \<Rightarrow> 'a \<Rightarrow> 'a" where
  "orElse x y = (case x of Some v \<Rightarrow> v | None \<Rightarrow> y)"

text \<open>The condition of the block "Handle rescheduling with potential location change".\<close>

definition isReschedule :: "update_request \<Rightarrow> bool" where
  "isReschedule body =
     (upd_appointmentDate body \<noteq> None \<or> upd_startTime body \<noteq> None \<or>
      upd_locationId body \<noteq> None \<or> upd_physicianId body \<noteq> None)"

text \<open>The query under "Check for conflicts at new time/location".\<close>

definition conflictCheck ::
  "database \<Rightarrow> nat \<Rightarrow> nat \<Rightarrow> date \<Rightarrow> time \<Rightarrow> nat \<Rightarrow> appointment list" where
  "conflictCheck db newPhysicianId newLocationId newDate newStartTime aid =
     filter (\<lambda>apt. apt_physician_id apt = newPhysicianId \<and> apt_location_id apt = newLocationId \<and>
                    apt_appointment_date apt = newDate \<and> apt_start_time apt = newStartTime \<and>
                    occupies apt \<and> apt_id apt \<noteq> aid)
       (appointments db)"

text \<open>The authorization check: true when the handler answers 403.\<close>

definition notOwner :: "database \<Rightarrow> user \<Rightarrow> appointment \<Rightarrow> bool" where
  "notOwner db usr apt =
     (usr_role usr = ''patient'' \<and>
      (case filter (\<lambda>p. pat_user_id p = usr_id usr) (patients db) of
         [] \<Rightarrow> True
       | p # _ \<Rightarrow> pat_id p \<noteq> apt_patient_id apt))"

text \<open>The validation of the new location: true when the handler answers 400.\<close>

definition notAtNewLocation :: "database \<Rightarrow> update_request \<Rightarrow> appointment \<Rightarrow> bool" where
  "notAtNewLocation db body apt =
     (case upd_locationId body of
        None \<Rightarrow> False
      | Some locationId \<Rightarrow>
          locationId \<noteq> apt_location_id apt \<and>
          length (filter (\<lambda>pl. pl_physician_id pl = orElse (upd_physicianId body) (apt_physician_id apt) \<and>
                                pl_location_id pl = orElse (upd_locationId body) (apt_location_id apt))
                    (physician_locations db)) = 0)"

text \<open>
  The statements after the check (the update of the payment, the assembled
  \<^verbatim>\<open>UPDATE\<close> of the appointment, the audit row, the commit), again a parameter.
\<close>

type_synonym update_statement =
  "database \<Rightarrow> nat \<Rightarrow> update_request \<Rightarrow> (appointment \<times> database) option"

definition runStatements ::
  "update_statement \<Rightarrow> database \<Rightarrow> nat \<Rightarrow> update_request \<Rightarrow> (error + appointment) \<times> database" where
  "runStatements runUpdate db aid body =
     (case runUpdate db aid body of
        None \<Rightarrow> (Inl ServerError, db)
      | Some (updatedAppointment, db') \<Rightarrow> (Inr updatedAppointment, db'))"

text \<open>\<^verbatim>\<open>PUT /api/appointments/:id\<close>, \<open>aid\<close> being the \<^verbatim>\<open>id\<close> of the path.\<close>

definition updateAppointment ::
  "update_statement \<Rightarrow> database \<Rightarrow> user \<Rightarrow> nat \<Rightarrow> update_request
     \<Rightarrow> (error + appointment) \<times> database" where
  "updateAppointment runUpdate db usr aid body =
     (case filter (\<lambda>apt. apt_id apt = aid) (appointments db) of
        [] \<Rightarrow> (Inl AppointmentNotFound, db)
      | appointment # _ \<Rightarrow>
          if notOwner db usr appointment then (Inl Unauthorized, db)
          else if isReschedule body then
            (let newPhysicianId = orElse (upd_physicianId body) (apt_physician_id appointment);
                 newLocationId = orElse (upd_locationId body) (apt_location_id appointment);
                 newDate = orElse (upd_appointmentDate body) (apt_appointment_date appointment);
                 newStartTime = orElse (upd_startTime body) (apt_start_time appointment)
             in if notAtNewLocation db body appointment then (Inl PhysicianNotAtLocation, db)
                else if length (conflictCheck db newPhysicianId newLocationId newDate
                                  newStartTime aid) > 0
                then (Inl SlotConflict, db)
                else runStatements runUpdate db aid body)
          else runStatements runUpdate db aid body)"

section \<open>The slot route of the single-location backend\<close>

text \<open>
  \<^verbatim>\<open>GET /:id/available-slots\<close> of \<^verbatim>\<open>routes/physicians.js\<close> reads
  \<^verbatim>\<open>physician_schedules\<close>, \<^verbatim>\<open>physician_time_off\<close> and \<^verbatim>\<open>appointments\<close>, and has its
  own loop.
\<close>

record physician_schedule =
  ps_physician_id :: nat
  ps_day_of_week :: nat
  ps_is_active :: bool
  ps_start_time :: time
  ps_end_time :: time
  ps_lunch_start :: "time option"
  ps_lunch_end :: "time option"

record physician_time_off =
  off_physician_id :: nat
  off_start_date :: date
  off_end_date :: date

record legacy_database =
  physician_schedules :: "physician_schedule list"
  time_off :: "physician_time_off list"
  legacy_appointments :: "appointment list"

record legacy_slot =
  ls_start :: time
  ls_end :: time

text \<open>The callback of \<^verbatim>\<open>appointments.rows.some\<close> of this route.\<close>

definition legacyBooked :: "appointment list \<Rightarrow> time \<Rightarrow> time \<Rightarrow> bool" where
  "legacyBooked appointmentRows currentTime slotEnd =
     list_ex (\<lambda>apt. isBefore currentTime (apt_end_time apt) \<and>
                     isAfter slotEnd (apt_start_time apt)) appointmentRows"

text \<open>The \<^verbatim>\<open>while\<close> loop of the route, with \<^verbatim>\<open>currentTime\<close> and \<^verbatim>\<open>slots\<close> as its state.\<close>

partial_function (option) legacySweep ::
  "time \<Rightarrow> time \<Rightarrow> time \<Rightarrow> appointment list \<Rightarrow> int \<Rightarrow> time \<Rightarrow> legacy_slot list
     \<Rightarrow> legacy_slot list option" where
  "legacySweep endMoment lunchStartMoment lunchEndMoment appointmentRows duration currentTime slots =
     (if isBefore currentTime endMoment then
        (let slotEnd = currentTime + duration in
         if isSameOrAfter currentTime lunchStartMoment \<and> isBefore currentTime lunchEndMoment then
           legacySweep endMoment lunchStartMoment lunchEndMoment appointmentRows duration
             lunchEndMoment slots
         else if \<not> legacyBooked appointmentRows currentTime slotEnd then
           legacySweep endMoment lunchStartMoment lunchEndMoment appointmentRows duration
             (currentTime + duration) (slots @ [\<lparr>ls_start = currentTime, ls_end = slotEnd\<rparr>])
         else
           legacySweep endMoment lunchStartMoment lunchEndMoment appointmentRows duration
             (currentTime + duration) slots)
      else Some slots)"

declare legacySweep.simps [code]

text \<open>
  A lunch column that is null puts the text "null" where the time is expected, and
  moment then reads the date alone: the start of the day.
\<close>

definition lunchMoment :: "time option \<Rightarrow> time" where
  "lunchMoment column = (case column of None \<Rightarrow> 0 | Some t \<Rightarrow> t)"

definition availableSlots ::
  "legacy_database \<Rightarrow> nat \<Rightarrow> date \<Rightarrow> int \<Rightarrow> legacy_slot list option" where
  "availableSlots db pid date duration =
     (case filter (\<lambda>ps. ps_physician_id ps = pid \<and> ps_day_of_week ps = day date \<and>
                         ps_is_active ps) (physician_schedules db) of
        [] \<Rightarrow> Some []
      | row0 # _ \<Rightarrow>
          if length (filter (\<lambda>off. off_physician_id off = pid \<and> off_start_date off \<le> date \<and>
                                    date \<le> off_end_date off) (time_off db)) > 0
          then Some []
          else
            (let appointmentRows =
                   filter (\<lambda>apt. apt_physician_id apt = pid \<and> apt_appointment_date apt = date \<and>
                                  apt_status apt \<noteq> Cancelled) (legacy_appointments db)
             in legacySweep (ps_end_time row0) (lunchMoment (ps_lunch_start row0))
                  (lunchMoment (ps_lunch_end row0)) appointmentRows duration
                  (ps_start_time row0) []))"

section \<open>The interval model\<close>

text \<open>
  Two half-open intervals of times, each a pair of its start and its end, overlap when
  each starts before the other ends.
\<close>

definition overlaps :: "time \<times> time \<Rightarrow> time \<times> time \<Rightarrow> bool" where
  "overlaps a b = (fst a < snd b \<and> fst b < snd a)"


text \<open>What the loop has tested of every slot that \<^verbatim>\<open>generateTimeSlots\<close> returns.\<close>

definition emitted :: "schedule \<Rightarrow> appointment list \<Rightarrow> int \<Rightarrow> slot \<Rightarrow> bool" where
  "emitted sch B d s =
     ((\<exists>k::nat. slot_start s = start_time sch + int k * d) \<and>
      slot_end s = slot_start s + d \<and> slot_available s \<and>
      slot_start s < end_time sch \<and> slot_end s \<le> end_time sch \<and>
      \<not> skipLunch sch (slot_start s) (slot_end s) \<and>
      \<not> isBooked B (slot_start s) (slot_end s))"

section \<open>Example rows\<close>

text \<open>
  Physician 1 at location 2 on Thursdays, 09:00 to 10:15 with no lunch window, and an
  appointment from 09:30 to 10:00 on day 0.
\<close>

definition thursdayHours :: schedule where
  "thursdayHours =
     \<lparr>physician_id = 1, location_id = 2, day_of_week = 4, start_time = 540, end_time = 615,
      lunch_start = None, lunch_end = None, break_times = [], is_active = True\<rparr>"

definition halfPastNine :: appointment where
  "halfPastNine =
     \<lparr>apt_id = 7, apt_patient_id = 3, apt_physician_id = 1, apt_location_id = 2,
      apt_appointment_date = 0, apt_start_time = 570, apt_end_time = 600,
      apt_status = Scheduled\<rparr>"

definition exampleDb :: database where
  "exampleDb =
     \<lparr>physician_location_schedules = [thursdayHours], appointments = [halfPastNine],
      physician_availability_exceptions = [],
      physician_locations = [\<lparr>pl_physician_id = 1, pl_location_id = 2\<rparr>],
      patients = [\<lparr>pat_id = 3, pat_user_id = 5\<rparr>],
      physicians = [\<lparr>phys_id = 1, phys_specialty = ''cardiology''\<rparr>]\<rparr>"

text \<open>The same hours in the tables of the single-location backend.\<close>

definition legacyHours :: physician_schedule where
  "legacyHours =
     \<lparr>ps_physician_id = 1, ps_day_of_week = 4, ps_is_active = True, ps_start_time = 540,
      ps_end_time = 615, ps_lunch_start = Some 720, ps_lunch_end = Some 780\<rparr>"

definition legacyDb :: legacy_database where
  "legacyDb = \<lparr>physician_schedules = [legacyHours], time_off = [], legacy_appointments = []\<rparr>"

text \<open>Hours with a lunch window from 12:00 to 13:00 and a break from 11:30 to 11:40.\<close>

definition lunchHours :: schedule where
  "lunchHours =
     \<lparr>physician_id = 1, location_id = 2, day_of_week = 4, start_time = 690, end_time = 810,
      lunch_start = Some 720, lunch_end = Some 780, break_times = [(690, 700)], is_active = True\<rparr>"

text \<open>
  Exceptions of physician 1 on day 0: unavailable at location 2, modified hours at
  location 2, and unavailable with no location.
\<close>

definition dayOff :: availability_exception where
  "dayOff =
     \<lparr>exc_physician_id = 1, exc_location_id = Some 2, exc_exception_date = 0,
      exc_exception_type = ''unavailable'', exc_start_time = None, exc_end_time = None,
      exc_reason = Some ''conference''\<rparr>"

definition shortDay :: availability_exception where
  "shortDay =
     \<lparr>exc_physician_id = 1, exc_location_id = Some 2, exc_exception_date = 0,
      exc_exception_type = ''modified_hours'', exc_start_time = Some 780, exc_end_time = Some 840,
      exc_reason = Some ''afternoon only''\<rparr>"

definition dayOffEverywhere :: availability_exception where
  "dayOffEverywhere = dayOff\<lparr>exc_location_id := None\<rparr>"

text \<open>
  A second appointment at 10:00, a member of staff, a request for the slot at 09:30
  that is taken, a request that moves the second appointment there, and statements
  that write the row.
\<close>

definition tenOClock :: appointment where
  "tenOClock =
     \<lparr>apt_id = 8, apt_patient_id = 3, apt_physician_id = 1, apt_location_id = 2,
      apt_appointment_date = 0, apt_start_time = 600, apt_end_time = 630,
      apt_status = Scheduled\<rparr>"

definition bookedDb :: database where
  "bookedDb = exampleDb\<lparr>appointments := [halfPastNine, tenOClock]\<rparr>"

definition frontDesk :: user where
  "frontDesk = \<lparr>usr_id = 9, usr_role = ''staff''\<rparr>"

definition sameSlotRequest :: booking_request where
  "sameSlotRequest =
     \<lparr>req_patientId = 4, req_physicianId = 1, req_locationId = 2, req_appointmentDate = 0,
      req_startTime = 570, req_endTime = 600\<rparr>"

definition moveToHalfPastNine :: update_request where
  "moveToHalfPastNine =
     \<lparr>upd_status = None, upd_appointmentDate = None, upd_startTime = Some 570,
      upd_endTime = Some 600, upd_locationId = None, upd_physicianId = None\<rparr>"

definition insertRow :: insert_statement where
  "insertRow db patientId body =
     (let row = \<lparr>apt_id = Suc (foldr max (map apt_id (appointments db)) 0),
                 apt_patient_id = patientId, apt_physician_id = req_physicianId body,
                 apt_location_id = req_locationId body,
                 apt_appointment_date = req_appointmentDate body,
                 apt_start_time = req_startTime body, apt_end_time = req_endTime body,
                 apt_status = Scheduled\<rparr>
      in Some (row, db\<lparr>appointments := appointments db @ [row]\<rparr>))"

definition updateRow :: update_statement where
  "updateRow db aid body =
     (case filter (\<lambda>apt. apt_id apt = aid) (appointments db) of
        [] \<Rightarrow> None
      | apt # _ \<Rightarrow>
          (let row = apt\<lparr>apt_physician_id := orElse (upd_physicianId body) (apt_physician_id apt),
                         apt_location_id := orElse (upd_locationId body) (apt_location_id apt),
                         apt_appointment_date :=
                           orElse (upd_appointmentDate body) (apt_appointment_date apt),
                         apt_start_time := orElse (upd_startTime body) (apt_start_time apt),
                         apt_end_time := orElse (upd_endTime body) (apt_end_time apt),
                         apt_status := orElse (upd_status body) (apt_status apt)\<rparr>
           in Some (row, db\<lparr>appointments :=
                        map (\<lambda>a. if apt_id a = aid then row else a) (appointments db)\<rparr>)))"

section \<open>The loop of generateTimeSlots\<close>

text \<open>One pass through the body of the loop either leaves it, skips, or emits.\<close>

lemma sweep_body_cases:
  assumes body:
    "(if isBefore cur (end_time sch) then
        (let slotEnd = cur + d in
         if isAfter slotEnd (end_time sch) then Some acc
         else if skipLunch sch cur slotEnd then f sch B d (cur + d) acc
         else if \<not> isBooked B cur slotEnd then
           f sch B d (cur + d)
             (acc @ [\<lparr>slot_start = cur, slot_end = slotEnd, slot_available = True\<rparr>])
         else f sch B d (cur + d) acc)
      else Some acc) = Some res"
  obtains
    (stop) "res = acc" "\<not> isBefore cur (end_time sch) \<or> isAfter (cur + d) (end_time sch)"
  | (skip) "isBefore cur (end_time sch)" "\<not> isAfter (cur + d) (end_time sch)"
      "skipLunch sch cur (cur + d) \<or> isBooked B cur (cur + d)"
      "f sch B d (cur + d) acc = Some res"
  | (emit) "isBefore cur (end_time sch)" "\<not> isAfter (cur + d) (end_time sch)"
      "\<not> skipLunch sch cur (cur + d)" "\<not> isBooked B cur (cur + d)"
      "f sch B d (cur + d)
         (acc @ [\<lparr>slot_start = cur, slot_end = cur + d, slot_available = True\<rparr>]) = Some res"
proof (cases "isBefore cur (end_time sch)")
  case False
  with body have "res = acc" by simp
  with False show ?thesis by (intro stop) simp_all
next
  case before: True
  show ?thesis
  proof (cases "isAfter (cur + d) (end_time sch)")
    case True
    with before body have "res = acc" by (simp add: Let_def)
    with True show ?thesis by (intro stop) simp_all
  next
    case fits: False
    show ?thesis
    proof (cases "skipLunch sch cur (cur + d)")
      case True
      with before fits body have "f sch B d (cur + d) acc = Some res" by (simp add: Let_def)
      with before fits True show ?thesis by (intro skip) simp_all
    next
      case nolunch: False
      show ?thesis
      proof (cases "isBooked B cur (cur + d)")
        case True
        with before fits nolunch body have "f sch B d (cur + d) acc = Some res"
          by (simp add: Let_def)
        with before fits True show ?thesis by (intro skip) simp_all
      next
        case False
        with before fits nolunch body
        have "f sch B d (cur + d)
                (acc @ [\<lparr>slot_start = cur, slot_end = cur + d, slot_available = True\<rparr>]) = Some res"
          by (simp add: Let_def)
        with before fits nolunch False show ?thesis by (intro emit)
      qed
    qed
  qed
qed

text \<open>
  A property of slots that holds of the ones collected so far, and of every candidate
  on the grid from \<open>st\<close> that passes the tests of the loop, holds of all the slots
  returned.
\<close>

lemma sweep_invariant:
  assumes step: "\<And>c k. c = st + int k * d \<Longrightarrow> isBefore c (end_time sch) \<Longrightarrow>
                   \<not> isAfter (c + d) (end_time sch) \<Longrightarrow>
                   \<not> skipLunch sch c (c + d) \<Longrightarrow> \<not> isBooked B c (c + d) \<Longrightarrow>
                   Q \<lparr>slot_start = c, slot_end = c + d, slot_available = True\<rparr>"
    and run: "sweep sch' B' d' cur acc = Some res"
  shows "sch' = sch \<Longrightarrow> B' = B \<Longrightarrow> d' = d \<Longrightarrow> \<forall>s\<in>set acc. Q s \<Longrightarrow>
         \<exists>k::nat. cur = st + int k * d \<Longrightarrow> \<forall>s\<in>set res. Q s"
  using run
proof (induction sch' B' d' cur acc res rule: sweep.raw_induct[rotated 1, consumes 1])
  case (1 f sch' B' d' cur acc res)
  from "1.prems" have eqs: "sch' = sch" "B' = B" "d' = d" by simp_all
  from "1.prems" obtain k :: nat where k: "cur = st + int k * d" by blast
  from "1.prems" have accQ: "\<forall>s\<in>set acc. Q s" by blast
  have next_grid: "\<exists>k'::nat. cur + d = st + int k' * d"
    using k by (intro exI[of _ "Suc k"]) (simp add: algebra_simps)
  from "1.hyps" show ?case unfolding eqs
  proof (cases rule: sweep_body_cases)
    case stop
    with accQ show ?thesis by simp
  next
    case skip
    from "1.IH"[OF skip(4) refl refl refl accQ next_grid] show ?thesis .
  next
    case emit
    let ?s = "\<lparr>slot_start = cur, slot_end = cur + d, slot_available = True\<rparr>"
    have "Q ?s" using step[OF k emit(1-4)] .
    with accQ have "\<forall>s\<in>set (acc @ [?s]). Q s" by simp
    from "1.IH"[OF emit(5) refl refl refl this next_grid] show ?thesis .
  qed
qed

text \<open>With a slot duration that is not positive the loop, once entered, is never left.\<close>

lemma sweep_never_returns:
  assumes run: "sweep sch B d cur acc = Some res"
  shows "d \<le> 0 \<Longrightarrow> isBefore cur (end_time sch) \<Longrightarrow> False"
  using run
proof (induction sch B d cur acc res rule: sweep.raw_induct[rotated 1, consumes 1])
  case (1 f sch B d cur acc res)
  from "1.prems" have nofit: "\<not> isAfter (cur + d) (end_time sch)"
    and again: "isBefore (cur + d) (end_time sch)"
    by (simp_all add: isBefore_def isAfter_def)
  from "1.hyps" show ?case
  proof (cases rule: sweep_body_cases)
    case stop
    with "1.prems" nofit show ?thesis by simp
  next
    case skip
    from "1.IH"[OF skip(4) "1.prems"(1) again] show ?thesis .
  next
    case emit
    from "1.IH"[OF emit(5) "1.prems"(1) again] show ?thesis .
  qed
qed

text \<open>With a positive slot duration the loop is left after finitely many passes.\<close>

lemma sweep_returns:
  "0 < d \<Longrightarrow> \<exists>res. sweep sch B d cur acc = Some res"
proof (induction "nat (end_time sch - cur)" arbitrary: cur acc rule: less_induct)
  case less
  show ?case
  proof (cases "isBefore cur (end_time sch)")
    case False
    then show ?thesis by (subst sweep.simps) simp
  next
    case True
    have m: "nat (end_time sch - (cur + d)) < nat (end_time sch - cur)"
      using True less.prems by (simp add: isBefore_def)
    from less.hyps[OF m less.prems]
    show ?thesis
      by (subst sweep.simps) (simp add: Let_def)
  qed
qed

lemma generateTimeSlots_returns:
  "0 < d \<Longrightarrow> \<exists>slots. generateTimeSlots sch B d = Some slots"
  unfolding generateTimeSlots_def by (rule sweep_returns)

text \<open>The slots returned are in ascending order and do not overlap one another.\<close>

lemma sweep_sorted:
  assumes run: "sweep sch B d cur acc = Some res"
  shows "0 < d \<Longrightarrow> sorted_wrt (\<lambda>a b. slot_end a \<le> slot_start b) acc \<Longrightarrow>
         \<forall>s\<in>set acc. slot_end s \<le> cur \<Longrightarrow>
         sorted_wrt (\<lambda>a b. slot_end a \<le> slot_start b) res"
  using run
proof (induction sch B d cur acc res rule: sweep.raw_induct[rotated 1, consumes 1])
  case (1 f sch B d cur acc res)
  let ?R = "\<lambda>a b. slot_end a \<le> slot_start b"
  let ?s = "\<lparr>slot_start = cur, slot_end = cur + d, slot_available = True\<rparr>"
  from "1.prems" have pos: "0 < d" and srt: "sorted_wrt ?R acc"
    and bnd: "\<forall>s\<in>set acc. slot_end s \<le> cur" by blast+
  from bnd pos have bnd': "\<forall>s\<in>set acc. slot_end s \<le> cur + d" by fastforce
  have srt': "sorted_wrt ?R (acc @ [?s])"
    using srt bnd by (simp add: sorted_wrt_append)
  have bnd'': "\<forall>s\<in>set (acc @ [?s]). slot_end s \<le> cur + d"
    using bnd' by simp
  from "1.hyps" show ?case
  proof (cases rule: sweep_body_cases)
    case stop
    with srt show ?thesis by simp
  next
    case skip
    from "1.IH"[OF skip(4) pos srt bnd'] show ?thesis .
  next
    case emit
    from "1.IH"[OF emit(5) pos srt' bnd''] show ?thesis .
  qed
qed

lemma generateTimeSlots_emitted:
  assumes "generateTimeSlots sch B d = Some slots" and "s \<in> set slots"
  shows "emitted sch B d s"
proof -
  have "\<forall>s\<in>set slots. emitted sch B d s"
  proof (rule sweep_invariant[where st = "start_time sch" and Q = "emitted sch B d"
        and sch = sch and B = B and d = d])
    show "sweep sch B d (start_time sch) [] = Some slots"
      using assms(1) by (simp add: generateTimeSlots_def)
    show "\<exists>k::nat. start_time sch = start_time sch + int k * d"
      by (intro exI[of _ 0]) simp
  next
    fix c and k :: nat
    assume "c = start_time sch + int k * d" "isBefore c (end_time sch)"
      "\<not> isAfter (c + d) (end_time sch)" "\<not> skipLunch sch c (c + d)" "\<not> isBooked B c (c + d)"
    then show "emitted sch B d \<lparr>slot_start = c, slot_end = c + d, slot_available = True\<rparr>"
      unfolding emitted_def isBefore_def isAfter_def by auto
  qed simp_all
  with assms(2) show ?thesis by blast
qed

section \<open>The grid of the slots\<close>

text \<open>
  Claim C10. Every slot that \<^verbatim>\<open>generateTimeSlots\<close> returns starts at the start time of
  the schedule plus a whole, non-negative number of slot durations: the loop moves
  \<^verbatim>\<open>currentTime\<close> by one slot duration whether it emits or skips. With a positive slot
  duration the function returns.
\<close>

theorem generateTimeSlots_grid:
  "(0 < d \<longrightarrow> generateTimeSlots sch B d \<noteq> None) \<and>
   (\<forall>slots. generateTimeSlots sch B d = Some slots \<longrightarrow>
      (\<forall>s\<in>set slots. \<exists>k::nat. slot_start s = start_time sch + int k * d))"
proof (intro conjI impI allI ballI)
  assume "0 < d"
  then show "generateTimeSlots sch B d \<noteq> None"
    using generateTimeSlots_returns[of d sch B] by auto
next
  fix slots s
  assume "generateTimeSlots sch B d = Some slots" "s \<in> set slots"
  then have "emitted sch B d s" by (rule generateTimeSlots_emitted)
  then show "\<exists>k::nat. slot_start s = start_time sch + int k * d"
    by (simp add: emitted_def)
qed

theorem generateTimeSlots_grid_witness:
  "generateTimeSlots thursdayHours [halfPastNine] 30 =
     Some [\<lparr>slot_start = 540, slot_end = 570, slot_available = True\<rparr>] \<and>
   (\<exists>k::nat. (540::int) = 540 + int k * 30)"
proof -
  have run: "generateTimeSlots thursdayHours [halfPastNine] 30 =
      Some [\<lparr>slot_start = 540, slot_end = 570, slot_available = True\<rparr>]"
    by code_simp
  from generateTimeSlots_grid[of 30 thursdayHours "[halfPastNine]"] run
  have "\<exists>k::nat. slot_start \<lparr>slot_start = 540, slot_end = 570, slot_available = True\<rparr>
          = start_time thursdayHours + int k * 30"
    by simp
  then have "\<exists>k::nat. (540::int) = 540 + int k * 30"
    by (simp add: thursdayHours_def)
  with run show ?thesis by simp
qed


section \<open>Slots and booked appointments\<close>

text \<open>An appointment that overlaps a candidate slot makes the callback of the loop true.\<close>

lemma overlaps_aptBlocks:
  "overlaps (c, e) (apt_start_time a, apt_end_time a) \<Longrightarrow> aptBlocks c e a"
  unfolding overlaps_def aptBlocks_def Let_def isBetween_closed_open_def
    isBetween_open_closed_def isSameOrBefore_def isSameOrAfter_def
  by auto

lemma emitted_free:
  assumes "emitted sch B d s" and "a \<in> set B"
  shows "\<not> overlaps (slot_start s, slot_end s) (apt_start_time a, apt_end_time a)"
proof
  assume "overlaps (slot_start s, slot_end s) (apt_start_time a, apt_end_time a)"
  then have "aptBlocks (slot_start s) (slot_end s) a" by (rule overlaps_aptBlocks)
  with assms(2) have "isBooked B (slot_start s) (slot_end s)"
    by (auto simp: isBooked_def list_ex_iff)
  with assms(1) show False by (simp add: emitted_def)
qed

lemma those_map_member:
  "those (map f xs) = Some ys \<Longrightarrow> y \<in> set ys \<Longrightarrow> \<exists>x\<in>set xs. f x = Some y"
proof (induction xs arbitrary: ys)
  case Nil
  then show ?case by simp
next
  case (Cons x xs)
  then show ?case by (auto split: option.splits)
qed

lemma slotsReport_Some:
  "slotsReport sch A = Some rep \<Longrightarrow>
     rep_location_id rep = location_id sch \<and> generateTimeSlots sch A 30 = Some (rep_slots rep)"
  by (auto simp: slotsReport_def split: option.splits)

lemma locationReport_slots:
  assumes "locationReport A E sch = Some rep" and "s \<in> set (rep_slots rep)"
  shows "rep_location_id rep = location_id sch \<and>
         generateTimeSlots sch (filter (\<lambda>apt. apt_location_id apt = location_id sch) A) 30
           = Some (rep_slots rep)"
  using assms
  by (auto simp: locationReport_def Let_def dest: slotsReport_Some split: option.splits if_splits)

lemma legacySweep_body_cases:
  assumes body:
    "(if isBefore cur e then
        (let slotEnd = cur + d in
         if isSameOrAfter cur ls \<and> isBefore cur le then f e ls le A d le acc
         else if \<not> legacyBooked A cur slotEnd then
           f e ls le A d (cur + d) (acc @ [\<lparr>ls_start = cur, ls_end = slotEnd\<rparr>])
         else f e ls le A d (cur + d) acc)
      else Some acc) = Some res"
  obtains
    (stop) "res = acc" "\<not> isBefore cur e"
  | (lunch) "isBefore cur e" "f e ls le A d le acc = Some res"
  | (skip) "isBefore cur e" "f e ls le A d (cur + d) acc = Some res"
  | (emit) "isBefore cur e" "\<not> legacyBooked A cur (cur + d)"
      "f e ls le A d (cur + d) (acc @ [\<lparr>ls_start = cur, ls_end = cur + d\<rparr>]) = Some res"
proof (cases "isBefore cur e")
  case False
  with body have "res = acc" by simp
  with False show ?thesis by (intro stop)
next
  case before: True
  show ?thesis
  proof (cases "isSameOrAfter cur ls \<and> isBefore cur le")
    case True
    with before body have "f e ls le A d le acc = Some res" by (simp add: Let_def)
    with before show ?thesis by (intro lunch)
  next
    case nolunch: False
    show ?thesis
    proof (cases "legacyBooked A cur (cur + d)")
      case True
      with before nolunch body have "f e ls le A d (cur + d) acc = Some res"
        by (auto simp: Let_def)
      with before show ?thesis by (intro skip)
    next
      case False
      with before nolunch body
      have "f e ls le A d (cur + d) (acc @ [\<lparr>ls_start = cur, ls_end = cur + d\<rparr>]) = Some res"
        by (auto simp: Let_def)
      with before False show ?thesis by (intro emit)
    qed
  qed
qed

lemma legacySweep_free:
  assumes run: "legacySweep e ls le A d cur acc = Some res"
  shows "\<forall>s\<in>set acc. \<not> legacyBooked A (ls_start s) (ls_end s) \<Longrightarrow>
         \<forall>s\<in>set res. \<not> legacyBooked A (ls_start s) (ls_end s)"
  using run
proof (induction e ls le A d cur acc res rule: legacySweep.raw_induct[rotated 1, consumes 1])
  case (1 f e ls le A d cur acc res)
  from "1.hyps" show ?case
  proof (cases rule: legacySweep_body_cases)
    case stop
    with "1.prems" show ?thesis by simp
  next
    case lunch
    from "1.IH"[OF lunch(2) "1.prems"] show ?thesis .
  next
    case skip
    from "1.IH"[OF skip(2) "1.prems"] show ?thesis .
  next
    case emit
    from emit(2) "1.prems"
    have "\<forall>s\<in>set (acc @ [\<lparr>ls_start = cur, ls_end = cur + d\<rparr>]).
            \<not> legacyBooked A (ls_start s) (ls_end s)" by simp
    from "1.IH"[OF emit(3) this] show ?thesis .
  qed
qed

lemma legacyBooked_overlaps:
  "a \<in> set A \<Longrightarrow> overlaps (c, e) (apt_start_time a, apt_end_time a) \<Longrightarrow> legacyBooked A c e"
  by (auto simp: legacyBooked_def list_ex_iff overlaps_def isBefore_def isAfter_def)

lemma availableSlots_free:
  assumes "availableSlots db pid date duration = Some slots" and "s \<in> set slots"
    and "a \<in> set (legacy_appointments db)" and "apt_physician_id a = pid"
    and "apt_appointment_date a = date" and "occupies a"
  shows "\<not> overlaps (ls_start s, ls_end s) (apt_start_time a, apt_end_time a)"
proof
  assume ov: "overlaps (ls_start s, ls_end s) (apt_start_time a, apt_end_time a)"
  let ?A = "filter (\<lambda>apt. apt_physician_id apt = pid \<and> apt_appointment_date apt = date \<and>
                          apt_status apt \<noteq> Cancelled) (legacy_appointments db)"
  from assms(3-6) have mem: "a \<in> set ?A" by (simp add: occupies_def)
  have "\<exists>row0::physician_schedule. legacySweep (ps_end_time row0) (lunchMoment (ps_lunch_start row0))
            (lunchMoment (ps_lunch_end row0)) ?A duration (ps_start_time row0) [] = Some slots"
  proof (cases "filter (\<lambda>ps. ps_physician_id ps = pid \<and> ps_day_of_week ps = day date \<and>
                         ps_is_active ps) (physician_schedules db)")
    case Nil
    with assms(1,2) show ?thesis by (simp add: availableSlots_def)
  next
    case (Cons row0 rest)
    with assms(1,2)
    have "legacySweep (ps_end_time row0) (lunchMoment (ps_lunch_start row0))
            (lunchMoment (ps_lunch_end row0)) ?A duration (ps_start_time row0) [] = Some slots"
      by (cases "length (filter (\<lambda>off. off_physician_id off = pid \<and> off_start_date off \<le> date \<and>
                                    date \<le> off_end_date off) (time_off db)) > 0")
         (auto simp: availableSlots_def Let_def)
    then show ?thesis by (rule exI[of _ row0])
  qed
  then obtain row0 :: physician_schedule where
    run: "legacySweep (ps_end_time row0) (lunchMoment (ps_lunch_start row0))
            (lunchMoment (ps_lunch_end row0)) ?A duration (ps_start_time row0) [] = Some slots"
    by blast
  from legacySweep_free[OF run] assms(2)
  have "\<not> legacyBooked ?A (ls_start s) (ls_end s)" by simp
  with legacyBooked_overlaps[OF mem ov] show False by simp
qed

lemma getAvailability_cases:
  assumes res: "getAvailability db pid (Some date) locationId = Some (Inr resp)"
  obtains (none) "resp = \<lparr>res_available = False, res_locations = []\<rparr>"
      "schedulesQuery db pid (day date) locationId = []"
  | (some) "those (map (locationReport (appointmentsQuery db pid date)
                          (exceptionsQuery db pid date))
                    (schedulesQuery db pid (day date) locationId)) = Some (res_locations resp)"
      "res_available resp = list_ex rep_available (res_locations resp)"
      "schedulesQuery db pid (day date) locationId \<noteq> []"
proof (cases "schedulesQuery db pid (day date) locationId = []")
  case True
  with res have "resp = \<lparr>res_available = False, res_locations = []\<rparr>"
    by (simp add: getAvailability_def)
  from none[OF this True] show ?thesis .
next
  case False
  show ?thesis
  proof (cases "those (map (locationReport (appointmentsQuery db pid date)
                              (exceptionsQuery db pid date))
                        (schedulesQuery db pid (day date) locationId))")
    case None
    with False res show ?thesis by (simp add: getAvailability_def Let_def)
  next
    case (Some reports)
    with False res have "resp = \<lparr>res_available = list_ex rep_available reports,
                                     res_locations = reports\<rparr>"
      by (simp add: getAvailability_def Let_def)
    with Some have "those (map (locationReport (appointmentsQuery db pid date)
                                  (exceptionsQuery db pid date))
                            (schedulesQuery db pid (day date) locationId))
                      = Some (res_locations resp)"
      and "res_available resp = list_ex rep_available (res_locations resp)" by simp_all
    then show ?thesis using False by (rule some)
  qed
qed

lemma getAvailability_free:
  assumes res: "getAvailability db pid (Some date) locationId = Some (Inr resp)"
    and rep: "rep \<in> set (res_locations resp)" and s: "s \<in> set (rep_slots rep)"
    and a: "a \<in> set (appointments db)" "apt_physician_id a = pid"
      "apt_location_id a = rep_location_id rep" "apt_appointment_date a = date" "occupies a"
  shows "\<not> overlaps (slot_start s, slot_end s) (apt_start_time a, apt_end_time a)"
  using res
proof (cases rule: getAvailability_cases)
  case none
  with rep show ?thesis by simp
next
  case some
  let ?A = "appointmentsQuery db pid date"
  from those_map_member[OF some(1) rep] obtain sch where
    sch: "locationReport ?A (exceptionsQuery db pid date) sch = Some rep" by blast
  from locationReport_slots[OF sch s] have loc: "rep_location_id rep = location_id sch"
    and gen: "generateTimeSlots sch (filter (\<lambda>apt. apt_location_id apt = location_id sch) ?A) 30
                = Some (rep_slots rep)" by simp_all
  from a loc have "a \<in> set (filter (\<lambda>apt. apt_location_id apt = location_id sch) ?A)"
    by (simp add: appointmentsQuery_def)
  with generateTimeSlots_emitted[OF gen s] show ?thesis by (rule emitted_free)
qed

text \<open>The handlers return, the slot route when its duration is positive.\<close>

lemma slotsReport_returns: "\<exists>rep. slotsReport sch A = Some rep"
  using generateTimeSlots_returns[of 30 sch A] by (auto simp: slotsReport_def)

lemma locationReport_returns: "\<exists>rep. locationReport A E sch = Some rep"
  using slotsReport_returns[of sch "filter (\<lambda>apt. apt_location_id apt = location_id sch) A"]
  by (auto simp: locationReport_def Let_def split: option.splits)

lemma those_map_returns:
  "\<forall>x\<in>set xs. \<exists>y. f x = Some y \<Longrightarrow> \<exists>ys. those (map f xs) = Some ys"
  by (induction xs) auto

lemma getAvailability_returns:
  "\<exists>response. getAvailability db pid dateParam locationId = Some response"
proof (cases dateParam)
  case None
  then show ?thesis by (simp add: getAvailability_def)
next
  case (Some date)
  have "\<exists>reports. those (map (locationReport (appointmentsQuery db pid date)
            (exceptionsQuery db pid date)) (schedulesQuery db pid (day date) locationId))
          = Some reports"
    by (rule those_map_returns) (simp add: locationReport_returns)
  with Some show ?thesis by (auto simp: getAvailability_def Let_def)
qed

lemma legacySweep_returns:
  "0 < d \<Longrightarrow> \<exists>res. legacySweep e ls le A d cur acc = Some res"
proof (induction "nat (e - cur)" arbitrary: cur acc rule: less_induct)
  case less
  show ?case
  proof (cases "isBefore cur e")
    case False
    then show ?thesis by (subst legacySweep.simps) simp
  next
    case True
    have step: "nat (e - (cur + d)) < nat (e - cur)"
      using True less.prems by (simp add: isBefore_def)
    show ?thesis
    proof (cases "isSameOrAfter cur ls \<and> isBefore cur le")
      case lunch: True
      with True have "nat (e - le) < nat (e - cur)" by (simp add: isBefore_def)
      from less.hyps[OF this less.prems] lunch True show ?thesis
        by (subst legacySweep.simps) (simp add: Let_def)
    next
      case False
      with less.hyps[OF step less.prems] True show ?thesis
        by (subst legacySweep.simps) (auto simp: Let_def)
    qed
  qed
qed

lemma availableSlots_returns:
  "0 < duration \<Longrightarrow> \<exists>slots. availableSlots db pid date duration = Some slots"
  using legacySweep_returns[of duration]
  by (auto simp: availableSlots_def Let_def split: list.splits)

text \<open>
  Claim C1. The slot generators return (the loops when the slot duration is positive),
  and no slot that one returns overlaps, as half-open intervals, an appointment it was
  given: for \<^verbatim>\<open>generateTimeSlots\<close> and any slot duration and list of
  appointments; for the availability handler and every appointment of the physician,
  the location of the report and the date whose status is neither cancelled nor
  no-show; and for the slot route of the single-location backend and every such
  appointment of the physician and the date. An appointment that contains the slot, or
  that the slot contains, is one of the cases.
\<close>

theorem slots_avoid_bookings:
  "(0 < d \<longrightarrow> generateTimeSlots sch B d \<noteq> None) \<and>
   getAvailability db pid (Some date) locationId \<noteq> None \<and>
   (0 < duration \<longrightarrow> availableSlots ldb pid date duration \<noteq> None) \<and>
   (\<forall>slots. generateTimeSlots sch B d = Some slots \<longrightarrow>
      (\<forall>s\<in>set slots. \<forall>a\<in>set B.
         \<not> overlaps (slot_start s, slot_end s) (apt_start_time a, apt_end_time a))) \<and>
   (\<forall>resp. getAvailability db pid (Some date) locationId = Some (Inr resp) \<longrightarrow>
      (\<forall>rep\<in>set (res_locations resp). \<forall>s\<in>set (rep_slots rep). \<forall>a\<in>set (appointments db).
         apt_physician_id a = pid \<and> apt_location_id a = rep_location_id rep \<and>
         apt_appointment_date a = date \<and> occupies a \<longrightarrow>
         \<not> overlaps (slot_start s, slot_end s) (apt_start_time a, apt_end_time a))) \<and>
   (\<forall>slots. availableSlots ldb pid date duration = Some slots \<longrightarrow>
      (\<forall>s\<in>set slots. \<forall>a\<in>set (legacy_appointments ldb).
         apt_physician_id a = pid \<and> apt_appointment_date a = date \<and> occupies a \<longrightarrow>
         \<not> overlaps (ls_start s, ls_end s) (apt_start_time a, apt_end_time a)))"
proof (intro conjI allI impI ballI)
  assume "0 < d"
  then show "generateTimeSlots sch B d \<noteq> None"
    using generateTimeSlots_returns[of d sch B] by auto
next
  show "getAvailability db pid (Some date) locationId \<noteq> None"
    using getAvailability_returns[of db pid "Some date" locationId] by auto
next
  assume "0 < duration"
  then show "availableSlots ldb pid date duration \<noteq> None"
    using availableSlots_returns[of duration ldb pid date] by auto
next
  fix slots s a
  assume "generateTimeSlots sch B d = Some slots" "s \<in> set slots" "a \<in> set B"
  then show "\<not> overlaps (slot_start s, slot_end s) (apt_start_time a, apt_end_time a)"
    using emitted_free generateTimeSlots_emitted by blast
next
  fix resp rep s a
  assume "getAvailability db pid (Some date) locationId = Some (Inr resp)"
    "rep \<in> set (res_locations resp)" "s \<in> set (rep_slots rep)" "a \<in> set (appointments db)"
    "apt_physician_id a = pid \<and> apt_location_id a = rep_location_id rep \<and>
     apt_appointment_date a = date \<and> occupies a"
  then show "\<not> overlaps (slot_start s, slot_end s) (apt_start_time a, apt_end_time a)"
    using getAvailability_free by blast
next
  fix slots s a
  assume "availableSlots ldb pid date duration = Some slots" "s \<in> set slots"
    "a \<in> set (legacy_appointments ldb)"
    "apt_physician_id a = pid \<and> apt_appointment_date a = date \<and> occupies a"
  then show "\<not> overlaps (ls_start s, ls_end s) (apt_start_time a, apt_end_time a)"
    using availableSlots_free by blast
qed

theorem slots_avoid_bookings_witness:
  "generateTimeSlots thursdayHours [halfPastNine] 30 =
     Some [\<lparr>slot_start = 540, slot_end = 570, slot_available = True\<rparr>] \<and>
   \<not> overlaps (540, 570) (570, 600) \<and>
   getAvailability exampleDb 1 (Some 0) (Some 2) =
     Some (Inr \<lparr>res_available = True, res_locations =
       [\<lparr>rep_location_id = 2, rep_available = True,
         rep_slots = [\<lparr>slot_start = 540, slot_end = 570, slot_available = True\<rparr>],
         rep_reason = None\<rparr>]\<rparr>) \<and>
   availableSlots (legacyDb\<lparr>legacy_appointments := [halfPastNine]\<rparr>) 1 0 30 =
     Some [\<lparr>ls_start = 540, ls_end = 570\<rparr>, \<lparr>ls_start = 600, ls_end = 630\<rparr>] \<and>
   \<not> overlaps (600, 630) (570, 600)"
proof -
  have g: "generateTimeSlots thursdayHours [halfPastNine] 30 =
     Some [\<lparr>slot_start = 540, slot_end = 570, slot_available = True\<rparr>]"
    by code_simp
  have h: "getAvailability exampleDb 1 (Some 0) (Some 2) =
     Some (Inr \<lparr>res_available = True, res_locations =
       [\<lparr>rep_location_id = 2, rep_available = True,
         rep_slots = [\<lparr>slot_start = 540, slot_end = 570, slot_available = True\<rparr>],
         rep_reason = None\<rparr>]\<rparr>)"
    by code_simp
  have l: "availableSlots (legacyDb\<lparr>legacy_appointments := [halfPastNine]\<rparr>) 1 0 30 =
     Some [\<lparr>ls_start = 540, ls_end = 570\<rparr>, \<lparr>ls_start = 600, ls_end = 630\<rparr>]"
    by code_simp
  have occ: "occupies halfPastNine" by code_simp
  note inst = slots_avoid_bookings[where sch = thursdayHours and B = "[halfPastNine]"
      and d = 30 and db = exampleDb and pid = 1 and date = 0 and locationId = "Some 2"
      and ldb = "legacyDb\<lparr>legacy_appointments := [halfPastNine]\<rparr>" and duration = 30]
  from inst g have "\<not> overlaps (540, 570) (apt_start_time halfPastNine, apt_end_time halfPastNine)"
    by simp
  then have a: "\<not> overlaps (540, 570) (570, 600)" by (simp add: halfPastNine_def)
  from inst l occ
  have "\<not> overlaps (600, 630) (apt_start_time halfPastNine, apt_end_time halfPastNine)"
    by (simp add: halfPastNine_def)
  then have b: "\<not> overlaps (600, 630) (570, 600)" by (simp add: halfPastNine_def)
  from g h l a b show ?thesis by blast
qed

section \<open>Order, length and the end of the hours\<close>

lemma generateTimeSlots_nonpositive:
  assumes "d \<le> 0" and run: "generateTimeSlots sch B d = Some slots"
  shows "slots = []"
proof (cases "isBefore (start_time sch) (end_time sch)")
  case True
  from run have "sweep sch B d (start_time sch) [] = Some slots"
    by (simp add: generateTimeSlots_def)
  from sweep_never_returns[OF this assms(1) True] show ?thesis ..
next
  case False
  with run show ?thesis
    by (simp add: generateTimeSlots_def sweep.simps[of sch B d "start_time sch"])
qed

lemma generateTimeSlots_sorted:
  assumes run: "generateTimeSlots sch B d = Some slots"
  shows "sorted_wrt (\<lambda>a b. slot_end a \<le> slot_start b) slots"
proof (cases "0 < d")
  case True
  from run have "sweep sch B d (start_time sch) [] = Some slots"
    by (simp add: generateTimeSlots_def)
  from sweep_sorted[OF this True] show ?thesis by simp
next
  case False
  then have "d \<le> 0" by simp
  from generateTimeSlots_nonpositive[OF this run] show ?thesis by simp
qed

lemma emitted_gap:
  assumes "emitted sch B d a" and "emitted sch B d b"
  shows "d dvd (slot_start b - slot_end a)"
proof -
  from assms obtain ka kb :: nat where
    "slot_start a = start_time sch + int ka * d" "slot_end a = slot_start a + d"
    "slot_start b = start_time sch + int kb * d"
    by (auto simp: emitted_def)
  then have "slot_start b - slot_end a = (int kb - int ka - 1) * d"
    by (simp add: algebra_simps)
  then show ?thesis by simp
qed

lemma sweep_break_times:
  assumes run: "sweep sch B d cur acc = Some res"
  shows "sweep (sch\<lparr>break_times := bs\<rparr>) B d cur acc = Some res"
  using run
proof (induction sch B d cur acc res rule: sweep.raw_induct[rotated 1, consumes 1])
  case (1 f sch B d cur acc res)
  have lunch: "skipLunch (sch\<lparr>break_times := bs\<rparr>) cur (cur + d) = skipLunch sch cur (cur + d)"
    by (simp add: skipLunch_def split: option.splits)
  from "1.hyps" show ?case
  proof (cases rule: sweep_body_cases)
    case stop
    then show ?thesis
      by (subst sweep.simps) (auto simp: Let_def)
  next
    case skip
    from "1.IH"[OF skip(4)] skip(1-3) lunch show ?thesis
      by (subst sweep.simps) (auto simp: Let_def)
  next
    case emit
    from "1.IH"[OF emit(5)] emit(1-4) lunch show ?thesis
      by (subst sweep.simps) (auto simp: Let_def)
  qed
qed

lemma emitted_lunch:
  assumes "emitted sch B d s" and "lunch_start sch = Some ls" and "lunch_end sch = Some le"
  shows "\<not> (ls \<le> slot_start s \<and> slot_start s < le)" and "\<not> (ls < slot_end s \<and> slot_end s \<le> le)"
  using assms
  by (auto simp: emitted_def skipLunch_def isBetween_closed_open_def isBetween_open_closed_def)

lemma generateTimeSlots_within_hours:
  assumes "generateTimeSlots sch B d = Some slots" and "s \<in> set slots"
  shows "slot_start s < end_time sch \<and> slot_end s \<le> end_time sch"
  using generateTimeSlots_emitted[OF assms] by (simp add: emitted_def)

text \<open>
  Claim C7. The slot route of the single-location backend has no test of the end of
  the slot against the end of the hours: with hours from 09:00 to 10:15 and slots of 30
  minutes it returns a slot from 10:00 to 10:30. \<^verbatim>\<open>generateTimeSlots\<close> on the same hours
  stops at 10:00, as \<open>generateTimeSlots_within_hours\<close> proves for all its inputs.
\<close>

theorem availableSlots_past_end:
  "availableSlots legacyDb 1 0 30 =
     Some [\<lparr>ls_start = 540, ls_end = 570\<rparr>, \<lparr>ls_start = 570, ls_end = 600\<rparr>,
           \<lparr>ls_start = 600, ls_end = 630\<rparr>] \<and>
   ps_end_time legacyHours = 615 \<and>
   generateTimeSlots thursdayHours [] 30 =
     Some [\<lparr>slot_start = 540, slot_end = 570, slot_available = True\<rparr>,
           \<lparr>slot_start = 570, slot_end = 600, slot_available = True\<rparr>] \<and>
   end_time thursdayHours = 615"
  by code_simp

text \<open>
  Claim C8 as stated fails: after a skipped candidate the next slot does not start
  where the previous one ended.
\<close>

theorem contiguous_counterexample:
  "generateTimeSlots (thursdayHours\<lparr>end_time := 630\<rparr>) [halfPastNine] 30 =
     Some [\<lparr>slot_start = 540, slot_end = 570, slot_available = True\<rparr>,
           \<lparr>slot_start = 600, slot_end = 630, slot_available = True\<rparr>] \<and>
   slot_end \<lparr>slot_start = 540, slot_end = 570, slot_available = True\<rparr> \<noteq>
   slot_start \<lparr>slot_start = 600, slot_end = 630, slot_available = True\<rparr>"
  by code_simp

text \<open>
  With a positive slot duration, every candidate on the grid that fits the hours and
  passes the lunch test and the booked test is among the slots returned.
\<close>

lemma sweep_complete:
  assumes run: "sweep sch B d cur acc = Some res"
  shows "0 < d \<Longrightarrow>
         set acc \<subseteq> set res \<and>
         (\<forall>k::nat. isBefore (cur + int k * d) (end_time sch) \<and>
                   \<not> isAfter (cur + int k * d + d) (end_time sch) \<and>
                   \<not> skipLunch sch (cur + int k * d) (cur + int k * d + d) \<and>
                   \<not> isBooked B (cur + int k * d) (cur + int k * d + d) \<longrightarrow>
                   \<lparr>slot_start = cur + int k * d, slot_end = cur + int k * d + d,
                    slot_available = True\<rparr> \<in> set res)"
  using run
proof (induction sch B d cur acc res rule: sweep.raw_induct[rotated 1, consumes 1])
  case (1 f sch B d cur acc res)
  note pos = "1.prems"
  have later: "cur \<le> cur + int k * d" for k :: nat
    using pos by simp
  have shift: "cur + int (Suc k) * d = (cur + d) + int k * d" for k :: nat
    by (simp add: algebra_simps)
  from "1.hyps" show ?case
  proof (cases rule: sweep_body_cases)
    case stop
    have "\<not> (isBefore (cur + int k * d) (end_time sch) \<and>
              \<not> isAfter (cur + int k * d + d) (end_time sch))" for k :: nat
      using stop(2) later[of k] by (auto simp: isBefore_def isAfter_def)
    with stop(1) show ?thesis by blast
  next
    case skip
    from "1.IH"[OF skip(4) pos] have sub: "set acc \<subseteq> set res"
      and rest: "\<And>k::nat. isBefore (cur + d + int k * d) (end_time sch) \<and>
                   \<not> isAfter (cur + d + int k * d + d) (end_time sch) \<and>
                   \<not> skipLunch sch (cur + d + int k * d) (cur + d + int k * d + d) \<and>
                   \<not> isBooked B (cur + d + int k * d) (cur + d + int k * d + d) \<Longrightarrow>
                   \<lparr>slot_start = cur + d + int k * d, slot_end = cur + d + int k * d + d,
                    slot_available = True\<rparr> \<in> set res"
      by blast+
    show ?thesis
    proof (intro conjI allI impI)
      show "set acc \<subseteq> set res" by (rule sub)
    next
      fix k :: nat
      assume pass: "isBefore (cur + int k * d) (end_time sch) \<and>
                   \<not> isAfter (cur + int k * d + d) (end_time sch) \<and>
                   \<not> skipLunch sch (cur + int k * d) (cur + int k * d + d) \<and>
                   \<not> isBooked B (cur + int k * d) (cur + int k * d + d)"
      show "\<lparr>slot_start = cur + int k * d, slot_end = cur + int k * d + d,
             slot_available = True\<rparr> \<in> set res"
      proof (cases k)
        case 0
        with pass skip(3) show ?thesis by simp
      next
        case (Suc k')
        from pass have "isBefore (cur + d + int k' * d) (end_time sch) \<and>
                   \<not> isAfter (cur + d + int k' * d + d) (end_time sch) \<and>
                   \<not> skipLunch sch (cur + d + int k' * d) (cur + d + int k' * d + d) \<and>
                   \<not> isBooked B (cur + d + int k' * d) (cur + d + int k' * d + d)"
          unfolding Suc shift .
        from rest[OF this] show ?thesis unfolding Suc shift .
      qed
    qed
  next
    case emit
    let ?s = "\<lparr>slot_start = cur, slot_end = cur + d, slot_available = True\<rparr>"
    from "1.IH"[OF emit(5) pos] have sub: "set (acc @ [?s]) \<subseteq> set res"
      and rest: "\<And>k::nat. isBefore (cur + d + int k * d) (end_time sch) \<and>
                   \<not> isAfter (cur + d + int k * d + d) (end_time sch) \<and>
                   \<not> skipLunch sch (cur + d + int k * d) (cur + d + int k * d + d) \<and>
                   \<not> isBooked B (cur + d + int k * d) (cur + d + int k * d + d) \<Longrightarrow>
                   \<lparr>slot_start = cur + d + int k * d, slot_end = cur + d + int k * d + d,
                    slot_available = True\<rparr> \<in> set res"
      by blast+
    show ?thesis
    proof (intro conjI allI impI)
      show "set acc \<subseteq> set res" using sub by simp
    next
      fix k :: nat
      assume pass: "isBefore (cur + int k * d) (end_time sch) \<and>
                   \<not> isAfter (cur + int k * d + d) (end_time sch) \<and>
                   \<not> skipLunch sch (cur + int k * d) (cur + int k * d + d) \<and>
                   \<not> isBooked B (cur + int k * d) (cur + int k * d + d)"
      show "\<lparr>slot_start = cur + int k * d, slot_end = cur + int k * d + d,
             slot_available = True\<rparr> \<in> set res"
      proof (cases k)
        case 0
        with sub show ?thesis by simp
      next
        case (Suc k')
        from pass have "isBefore (cur + d + int k' * d) (end_time sch) \<and>
                   \<not> isAfter (cur + d + int k' * d + d) (end_time sch) \<and>
                   \<not> skipLunch sch (cur + d + int k' * d) (cur + d + int k' * d + d) \<and>
                   \<not> isBooked B (cur + d + int k' * d) (cur + d + int k' * d + d)"
          unfolding Suc shift .
        from rest[OF this] show ?thesis unfolding Suc shift .
      qed
    qed
  qed
qed

lemma generateTimeSlots_complete:
  assumes run: "generateTimeSlots sch B d = Some slots" and pos: "0 < d"
    and fits: "start_time sch + int k * d + d \<le> end_time sch"
    and free: "\<not> skipLunch sch (start_time sch + int k * d) (start_time sch + int k * d + d)"
      "\<not> isBooked B (start_time sch + int k * d) (start_time sch + int k * d + d)"
  shows "\<lparr>slot_start = start_time sch + int k * d, slot_end = start_time sch + int k * d + d,
          slot_available = True\<rparr> \<in> set slots"
proof -
  from run have "sweep sch B d (start_time sch) [] = Some slots"
    by (simp add: generateTimeSlots_def)
  from sweep_complete[OF this pos] fits free pos show ?thesis
    by (simp add: isBefore_def isAfter_def)
qed

lemma generateTimeSlots_between:
  assumes run: "generateTimeSlots sch B d = Some slots" and i: "Suc i < length slots"
    and lo: "slot_end (slots ! i) \<le> start_time sch + int k * d"
    and hi: "start_time sch + int k * d + d \<le> slot_start (slots ! Suc i)"
  shows "skipLunch sch (start_time sch + int k * d) (start_time sch + int k * d + d) \<or>
         isBooked B (start_time sch + int k * d) (start_time sch + int k * d + d)"
proof (rule ccontr)
  let ?c = "start_time sch + int k * d"
  let ?s = "\<lparr>slot_start = ?c, slot_end = ?c + d, slot_available = True\<rparr>"
  assume "\<not> (skipLunch sch ?c (?c + d) \<or> isBooked B ?c (?c + d))"
  then have free: "\<not> skipLunch sch ?c (?c + d)" "\<not> isBooked B ?c (?c + d)" by simp_all
  have pos: "0 < d"
  proof (rule ccontr)
    assume "\<not> 0 < d"
    then have "d \<le> 0" by simp
    from generateTimeSlots_nonpositive[OF this run] i show False by simp
  qed
  from i have mem: "slots ! i \<in> set slots" "slots ! Suc i \<in> set slots" by simp_all
  from generateTimeSlots_emitted[OF run mem(1)] have a: "slot_end (slots ! i) = slot_start (slots ! i) + d"
    by (simp add: emitted_def)
  from generateTimeSlots_emitted[OF run mem(2)]
  have b: "slot_end (slots ! Suc i) = slot_start (slots ! Suc i) + d"
    and bend: "slot_start (slots ! Suc i) < end_time sch"
    by (simp_all add: emitted_def)
  from hi bend have "?c + d \<le> end_time sch" by simp
  from generateTimeSlots_complete[OF run pos this free] obtain j where
    j: "j < length slots" "slots ! j = ?s" by (auto simp: in_set_conv_nth)
  have ord: "\<And>m n. m < n \<Longrightarrow> n < length slots \<Longrightarrow> slot_end (slots ! m) \<le> slot_start (slots ! n)"
    using generateTimeSlots_sorted[OF run] by (simp add: sorted_wrt_iff_nth_less)
  consider "j < i" | "j = i" | "j = Suc i" | "Suc i < j" by linarith
  then show False
  proof cases
    case 1
    from ord[OF 1] i have "slot_end (slots ! j) \<le> slot_start (slots ! i)" by simp
    with j(2) a lo pos show False by simp
  next
    case 2
    with j(2) a lo pos show False by simp
  next
    case 3
    with j(2) hi pos show False by simp
  next
    case 4
    from ord[OF 4 j(1)] j(2) b hi pos show False by simp
  qed
qed

text \<open>
  Claim C8, amended. In every list that \<^verbatim>\<open>generateTimeSlots\<close> returns each slot lasts
  exactly the slot duration, and every candidate on the grid that fits the hours and
  passes the lunch test and the booked test is in the list. Consecutive slots do not
  overlap, and they are contiguous unless the candidate that starts where the earlier
  slot ends was skipped by the lunch test or the booked test: the gap between two
  consecutive slots is a whole number of slot durations, and every candidate in the
  gap fails one of the two tests.
\<close>

theorem slots_contiguous_unless_skipped:
  "\<forall>slots. generateTimeSlots sch B d = Some slots \<longrightarrow>
     (\<forall>s\<in>set slots. slot_end s - slot_start s = d) \<and>
     (\<forall>k::nat. 0 < d \<and> start_time sch + int k * d + d \<le> end_time sch \<and>
        \<not> skipLunch sch (start_time sch + int k * d) (start_time sch + int k * d + d) \<and>
        \<not> isBooked B (start_time sch + int k * d) (start_time sch + int k * d + d) \<longrightarrow>
        \<lparr>slot_start = start_time sch + int k * d, slot_end = start_time sch + int k * d + d,
         slot_available = True\<rparr> \<in> set slots) \<and>
     (\<forall>i. Suc i < length slots \<longrightarrow>
        slot_end (slots ! i) \<le> slot_start (slots ! Suc i) \<and>
        d dvd (slot_start (slots ! Suc i) - slot_end (slots ! i)) \<and>
        (slot_end (slots ! i) = slot_start (slots ! Suc i) \<or>
         skipLunch sch (slot_end (slots ! i)) (slot_end (slots ! i) + d) \<or>
         isBooked B (slot_end (slots ! i)) (slot_end (slots ! i) + d)) \<and>
        (\<forall>k::nat. slot_end (slots ! i) \<le> start_time sch + int k * d \<and>
           start_time sch + int k * d + d \<le> slot_start (slots ! Suc i) \<longrightarrow>
           skipLunch sch (start_time sch + int k * d) (start_time sch + int k * d + d) \<or>
           isBooked B (start_time sch + int k * d) (start_time sch + int k * d + d)))"
proof (intro allI impI)
  fix slots
  assume run: "generateTimeSlots sch B d = Some slots"
  have len: "\<forall>s\<in>set slots. slot_end s - slot_start s = d"
  proof
    fix s
    assume "s \<in> set slots"
    with run have "emitted sch B d s" by (rule generateTimeSlots_emitted)
    then show "slot_end s - slot_start s = d" by (simp add: emitted_def)
  qed
  have all: "\<forall>k::nat. 0 < d \<and> start_time sch + int k * d + d \<le> end_time sch \<and>
        \<not> skipLunch sch (start_time sch + int k * d) (start_time sch + int k * d + d) \<and>
        \<not> isBooked B (start_time sch + int k * d) (start_time sch + int k * d + d) \<longrightarrow>
        \<lparr>slot_start = start_time sch + int k * d, slot_end = start_time sch + int k * d + d,
         slot_available = True\<rparr> \<in> set slots"
    using generateTimeSlots_complete[OF run] by blast
  have pairs: "\<forall>i. Suc i < length slots \<longrightarrow>
        slot_end (slots ! i) \<le> slot_start (slots ! Suc i) \<and>
        d dvd (slot_start (slots ! Suc i) - slot_end (slots ! i)) \<and>
        (slot_end (slots ! i) = slot_start (slots ! Suc i) \<or>
         skipLunch sch (slot_end (slots ! i)) (slot_end (slots ! i) + d) \<or>
         isBooked B (slot_end (slots ! i)) (slot_end (slots ! i) + d)) \<and>
        (\<forall>k::nat. slot_end (slots ! i) \<le> start_time sch + int k * d \<and>
           start_time sch + int k * d + d \<le> slot_start (slots ! Suc i) \<longrightarrow>
           skipLunch sch (start_time sch + int k * d) (start_time sch + int k * d + d) \<or>
           isBooked B (start_time sch + int k * d) (start_time sch + int k * d + d))"
  proof (intro allI impI)
    fix i
    assume i: "Suc i < length slots"
    let ?a = "slots ! i" and ?b = "slots ! Suc i"
    from generateTimeSlots_sorted[OF run] i
    have ord: "slot_end ?a \<le> slot_start ?b"
      by (simp add: sorted_wrt_iff_nth_less)
    from i have "?a \<in> set slots" "?b \<in> set slots" by simp_all
    with run have em: "emitted sch B d ?a" "emitted sch B d ?b"
      by (auto intro: generateTimeSlots_emitted)
    then have gap: "d dvd (slot_start ?b - slot_end ?a)" by (rule emitted_gap)
    have between: "skipLunch sch (start_time sch + int k * d) (start_time sch + int k * d + d) \<or>
           isBooked B (start_time sch + int k * d) (start_time sch + int k * d + d)"
      if "slot_end ?a \<le> start_time sch + int k * d \<and>
          start_time sch + int k * d + d \<le> slot_start ?b" for k :: nat
      using generateTimeSlots_between[OF run i] that by blast
    have next_one: "slot_end ?a = slot_start ?b \<or>
         skipLunch sch (slot_end ?a) (slot_end ?a + d) \<or> isBooked B (slot_end ?a) (slot_end ?a + d)"
    proof (cases "slot_end ?a = slot_start ?b")
      case True
      then show ?thesis by simp
    next
      case False
      with ord have "0 < slot_start ?b - slot_end ?a" by simp
      with gap have "d \<le> slot_start ?b - slot_end ?a" by (rule zdvd_imp_le)
      then have fits: "slot_end ?a + d \<le> slot_start ?b" by simp
      from em(1) obtain ka :: nat where
        "slot_start ?a = start_time sch + int ka * d" "slot_end ?a = slot_start ?a + d"
        by (auto simp: emitted_def)
      then have grid: "slot_end ?a = start_time sch + int (Suc ka) * d"
        by (simp add: algebra_simps)
      from between[of "Suc ka"] fits grid show ?thesis by simp
    qed
    from ord gap next_one between
    show "slot_end ?a \<le> slot_start ?b \<and>
        d dvd (slot_start ?b - slot_end ?a) \<and>
        (slot_end ?a = slot_start ?b \<or>
         skipLunch sch (slot_end ?a) (slot_end ?a + d) \<or>
         isBooked B (slot_end ?a) (slot_end ?a + d)) \<and>
        (\<forall>k::nat. slot_end ?a \<le> start_time sch + int k * d \<and>
           start_time sch + int k * d + d \<le> slot_start ?b \<longrightarrow>
           skipLunch sch (start_time sch + int k * d) (start_time sch + int k * d + d) \<or>
           isBooked B (start_time sch + int k * d) (start_time sch + int k * d + d))"
      by blast
  qed
  from len all pairs
  show "(\<forall>s\<in>set slots. slot_end s - slot_start s = d) \<and>
     (\<forall>k::nat. 0 < d \<and> start_time sch + int k * d + d \<le> end_time sch \<and>
        \<not> skipLunch sch (start_time sch + int k * d) (start_time sch + int k * d + d) \<and>
        \<not> isBooked B (start_time sch + int k * d) (start_time sch + int k * d + d) \<longrightarrow>
        \<lparr>slot_start = start_time sch + int k * d, slot_end = start_time sch + int k * d + d,
         slot_available = True\<rparr> \<in> set slots) \<and>
     (\<forall>i. Suc i < length slots \<longrightarrow>
        slot_end (slots ! i) \<le> slot_start (slots ! Suc i) \<and>
        d dvd (slot_start (slots ! Suc i) - slot_end (slots ! i)) \<and>
        (slot_end (slots ! i) = slot_start (slots ! Suc i) \<or>
         skipLunch sch (slot_end (slots ! i)) (slot_end (slots ! i) + d) \<or>
         isBooked B (slot_end (slots ! i)) (slot_end (slots ! i) + d)) \<and>
        (\<forall>k::nat. slot_end (slots ! i) \<le> start_time sch + int k * d \<and>
           start_time sch + int k * d + d \<le> slot_start (slots ! Suc i) \<longrightarrow>
           skipLunch sch (start_time sch + int k * d) (start_time sch + int k * d + d) \<or>
           isBooked B (start_time sch + int k * d) (start_time sch + int k * d + d)))"
    by (intro conjI)
qed

theorem slots_contiguous_unless_skipped_witness:
  "generateTimeSlots (thursdayHours\<lparr>end_time := 660\<rparr>) [halfPastNine] 30 =
     Some [\<lparr>slot_start = 540, slot_end = 570, slot_available = True\<rparr>,
           \<lparr>slot_start = 600, slot_end = 630, slot_available = True\<rparr>,
           \<lparr>slot_start = 630, slot_end = 660, slot_available = True\<rparr>] \<and>
   isBooked [halfPastNine] 570 600 \<and> (630::int) = 630 \<and> (30::int) dvd 600 - 570 \<and>
   \<lparr>slot_start = 600, slot_end = 630, slot_available = True\<rparr> \<in>
     set [\<lparr>slot_start = 540, slot_end = 570, slot_available = True\<rparr>,
          \<lparr>slot_start = 600, slot_end = 630, slot_available = True\<rparr>,
          \<lparr>slot_start = 630, slot_end = 660, slot_available = True\<rparr>]"
proof -
  let ?sch = "thursdayHours\<lparr>end_time := 660\<rparr>"
  have run: "generateTimeSlots ?sch [halfPastNine] 30 =
     Some [\<lparr>slot_start = 540, slot_end = 570, slot_available = True\<rparr>,
           \<lparr>slot_start = 600, slot_end = 630, slot_available = True\<rparr>,
           \<lparr>slot_start = 630, slot_end = 660, slot_available = True\<rparr>]"
    by code_simp
  note inst = slots_contiguous_unless_skipped[where sch = ?sch and B = "[halfPastNine]" and d = 30,
      THEN spec, THEN mp, OF run]
  have nolunch: "\<not> skipLunch ?sch c e" for c e
    by (simp add: skipLunch_def thursdayHours_def)
  from inst[THEN conjunct2, THEN conjunct2, THEN spec, of 0] nolunch
  have first: "isBooked [halfPastNine] 570 600 \<and> (30::int) dvd 600 - 570"
    by simp
  from inst[THEN conjunct2, THEN conjunct2, THEN spec, of 1] nolunch
  have second: "(630::int) = 630" by simp
  have free: "\<not> isBooked [halfPastNine] 600 630" by code_simp
  from inst[THEN conjunct2, THEN conjunct1, THEN spec, of 2] nolunch free
  have third: "\<lparr>slot_start = 600, slot_end = 630, slot_available = True\<rparr> \<in>
     set [\<lparr>slot_start = 540, slot_end = 570, slot_available = True\<rparr>,
          \<lparr>slot_start = 600, slot_end = 630, slot_available = True\<rparr>,
          \<lparr>slot_start = 630, slot_end = 660, slot_available = True\<rparr>]"
    by (simp add: thursdayHours_def)
  from run first second third show ?thesis by blast
qed

section \<open>Lunch and breaks\<close>

text \<open>
  Claim C6 as stated fails: \<^verbatim>\<open>generateTimeSlots\<close> does not read \<^verbatim>\<open>break_times\<close>, so a
  slot can overlap a break.
\<close>

theorem break_overlapped_counterexample:
  "generateTimeSlots (thursdayHours\<lparr>break_times := [(570, 585)]\<rparr>) [] 30 =
     Some [\<lparr>slot_start = 540, slot_end = 570, slot_available = True\<rparr>,
           \<lparr>slot_start = 570, slot_end = 600, slot_available = True\<rparr>] \<and>
   overlaps (570, 600) (570, 585)"
  by code_simp

text \<open>
  Claim C6, amended. The slots that \<^verbatim>\<open>generateTimeSlots\<close> returns do not depend on the
  break periods of the schedule. Each lasts the whole slot duration and starts on the
  grid of the start time. With a lunch window, no slot starts inside it and none ends
  inside it, so a slot that overlaps the window contains it strictly.
\<close>

theorem slots_avoid_lunch_edges:
  "\<forall>slots. generateTimeSlots sch B d = Some slots \<longrightarrow>
     generateTimeSlots (sch\<lparr>break_times := bs\<rparr>) B d = Some slots \<and>
     (\<forall>s\<in>set slots.
        slot_end s = slot_start s + d \<and>
        (\<exists>k::nat. slot_start s = start_time sch + int k * d) \<and>
        (\<forall>ls le. lunch_start sch = Some ls \<and> lunch_end sch = Some le \<longrightarrow>
           \<not> (ls \<le> slot_start s \<and> slot_start s < le) \<and>
           \<not> (ls < slot_end s \<and> slot_end s \<le> le) \<and>
           (overlaps (slot_start s, slot_end s) (ls, le) \<longrightarrow>
              slot_start s < ls \<and> le < slot_end s)))"
proof (intro allI impI conjI ballI)
  fix slots
  assume run: "generateTimeSlots sch B d = Some slots"
  then show "generateTimeSlots (sch\<lparr>break_times := bs\<rparr>) B d = Some slots"
    using sweep_break_times[of sch B d "start_time sch" "[]" slots bs]
    by (simp add: generateTimeSlots_def)
  fix s
  assume "s \<in> set slots"
  with run have em: "emitted sch B d s" by (rule generateTimeSlots_emitted)
  then show "slot_end s = slot_start s + d"
    and "\<exists>k::nat. slot_start s = start_time sch + int k * d"
    by (simp_all add: emitted_def)
  fix ls le
  assume "lunch_start sch = Some ls \<and> lunch_end sch = Some le"
  then have edges: "\<not> (ls \<le> slot_start s \<and> slot_start s < le)"
    "\<not> (ls < slot_end s \<and> slot_end s \<le> le)"
    using emitted_lunch[OF em] by blast+
  from edges show "\<not> (ls \<le> slot_start s \<and> slot_start s < le)" by blast
  from edges show "\<not> (ls < slot_end s \<and> slot_end s \<le> le)" by blast
  assume "overlaps (slot_start s, slot_end s) (ls, le)"
  with edges show "slot_start s < ls" and "le < slot_end s"
    by (auto simp: overlaps_def)
qed

theorem slots_avoid_lunch_edges_witness:
  "generateTimeSlots lunchHours [] 30 =
     Some [\<lparr>slot_start = 690, slot_end = 720, slot_available = True\<rparr>,
           \<lparr>slot_start = 780, slot_end = 810, slot_available = True\<rparr>] \<and>
   generateTimeSlots (lunchHours\<lparr>break_times := []\<rparr>) [] 30 = generateTimeSlots lunchHours [] 30 \<and>
   \<not> overlaps (690, 720) (720, 780) \<and> \<not> overlaps (780, 810) (720, 780)"
proof -
  have run: "generateTimeSlots lunchHours [] 30 =
     Some [\<lparr>slot_start = 690, slot_end = 720, slot_available = True\<rparr>,
           \<lparr>slot_start = 780, slot_end = 810, slot_available = True\<rparr>]"
    by code_simp
  have lunch: "lunch_start lunchHours = Some 720 \<and> lunch_end lunchHours = Some 780"
    by (simp add: lunchHours_def)
  note inst = slots_avoid_lunch_edges[of lunchHours "[]" 30 "[]", rule_format, OF run]
  from inst have same: "generateTimeSlots (lunchHours\<lparr>break_times := []\<rparr>) [] 30 =
      generateTimeSlots lunchHours [] 30"
    using run by simp
  have a: "\<not> overlaps (690, 720) (720, 780)"
  proof
    assume "overlaps (690, 720) (720, 780)"
    with inst lunch have "(690::int) < 720 \<and> (780::int) < 720"
      by (auto simp: lunchHours_def)
    then show False by simp
  qed
  have b: "\<not> overlaps (780, 810) (720, 780)"
  proof
    assume "overlaps (780, 810) (720, 780)"
    with inst lunch have "(780::int) < 720 \<and> (780::int) < 810"
      by (auto simp: lunchHours_def)
    then show False by simp
  qed
  from run same a b show ?thesis by blast
qed


section \<open>Exceptions in the availability handler\<close>

lemma find_filter_implied:
  assumes "\<And>x. P x \<Longrightarrow> Q x"
  shows "find P (filter Q xs) = find P xs"
  using assms by (induction xs) auto

lemma locationReport_null_location:
  "locationReport A (filter (\<lambda>exc. exc_location_id exc \<noteq> None) E) = locationReport A E"
proof
  fix sch :: schedule
  have "find (\<lambda>exc. exc_location_id exc = Some (location_id sch))
          (filter (\<lambda>exc. exc_location_id exc \<noteq> None) E)
        = find (\<lambda>exc. exc_location_id exc = Some (location_id sch)) E"
    by (rule find_filter_implied) simp
  then show "locationReport A (filter (\<lambda>exc. exc_location_id exc \<noteq> None) E) sch
      = locationReport A E sch" by (simp add: locationReport_def)
qed

lemma exceptionsQuery_filter:
  "exceptionsQuery (db\<lparr>physician_availability_exceptions :=
        filter Q (physician_availability_exceptions db)\<rparr>) pid date
   = filter Q (exceptionsQuery db pid date)"
  by (simp add: exceptionsQuery_def conj_commute)

lemma other_queries_exceptions:
  "schedulesQuery (db\<lparr>physician_availability_exceptions := E\<rparr>) pid dow loc
     = schedulesQuery db pid dow loc"
  "appointmentsQuery (db\<lparr>physician_availability_exceptions := E\<rparr>) pid date
     = appointmentsQuery db pid date"
  by (simp_all add: schedulesQuery_def appointmentsQuery_def)

lemma find_map_same:
  assumes "\<And>x. P (h x) = P x"
  shows "find P (map h xs) = map_option h (find P xs)"
  using assms by (induction xs) auto

lemma locationReport_override_times:
  "locationReport A (map (\<lambda>exc. exc\<lparr>exc_start_time := f exc, exc_end_time := g exc\<rparr>) E)
     = locationReport A E"
proof
  fix sch :: schedule
  let ?h = "\<lambda>exc. exc\<lparr>exc_start_time := f exc, exc_end_time := g exc\<rparr>"
  have "find (\<lambda>exc. exc_location_id exc = Some (location_id sch)) (map ?h E)
        = map_option ?h (find (\<lambda>exc. exc_location_id exc = Some (location_id sch)) E)"
    by (rule find_map_same) simp
  then show "locationReport A (map ?h E) sch = locationReport A E sch"
    by (cases "find (\<lambda>exc. exc_location_id exc = Some (location_id sch)) E")
       (simp_all add: locationReport_def)
qed

lemma exceptionsQuery_override_times:
  "exceptionsQuery (db\<lparr>physician_availability_exceptions :=
        map (\<lambda>exc. exc\<lparr>exc_start_time := f exc, exc_end_time := g exc\<rparr>)
          (physician_availability_exceptions db)\<rparr>) pid date
   = map (\<lambda>exc. exc\<lparr>exc_start_time := f exc, exc_end_time := g exc\<rparr>) (exceptionsQuery db pid date)"
  by (simp add: exceptionsQuery_def filter_map comp_def)

lemma find_unique:
  assumes "x \<in> set xs" and "P x" and "\<forall>y\<in>set xs. P y \<longrightarrow> y = x"
  shows "find P xs = Some x"
  using assms
proof (induction xs)
  case Nil
  then show ?case by simp
next
  case (Cons a xs)
  show ?case
  proof (cases "P a")
    case True
    with Cons.prems(3) have "a = x" by simp
    with True show ?thesis by simp
  next
    case False
    with Cons.prems(1,2) have "x \<in> set xs" by auto
    moreover from Cons.prems(3) have "\<forall>y\<in>set xs. P y \<longrightarrow> y = x" by simp
    ultimately have "find P xs = Some x" using Cons.IH Cons.prems(2) by blast
    with False show ?thesis by simp
  qed
qed

lemma those_map_Some:
  "those (map (\<lambda>x. Some (g x)) xs) = Some (map g xs)"
  by (induction xs) simp_all

lemma those_map_cong_Some:
  assumes "\<forall>x\<in>set xs. f x = Some (g x)"
  shows "those (map f xs) = Some (map g xs)"
proof -
  from assms have "map f xs = map (\<lambda>x. Some (g x)) xs" by simp
  then show ?thesis by (simp only: those_map_Some)
qed

text \<open>
  Claim C3 as stated fails: with a modified-hours exception from 13:00 to 14:00 the
  handler still returns the slots of the schedule's own hours, not those of the
  override.
\<close>

theorem modified_hours_counterexample:
  "getAvailability (exampleDb\<lparr>physician_availability_exceptions := [shortDay]\<rparr>) 1 (Some 0) (Some 2) =
     Some (Inr \<lparr>res_available = True, res_locations =
       [\<lparr>rep_location_id = 2, rep_available = True,
         rep_slots = [\<lparr>slot_start = 540, slot_end = 570, slot_available = True\<rparr>],
         rep_reason = None\<rparr>]\<rparr>) \<and>
   exc_start_time shortDay = Some 780 \<and> exc_end_time shortDay = Some 840 \<and>
   generateTimeSlots (thursdayHours\<lparr>start_time := 780, end_time := 840\<rparr>) [halfPastNine] 30 =
     Some [\<lparr>slot_start = 780, slot_end = 810, slot_available = True\<rparr>,
           \<lparr>slot_start = 810, slot_end = 840, slot_available = True\<rparr>]"
  by code_simp

text \<open>
  Claim C3, amended. A modified-hours exception changes nothing: the report of a
  location whose exception is of that kind is the one generated from the schedule's own
  start and end, and the response of the handler does not depend on the start and end
  times of any exception.
\<close>

theorem modified_hours_ignored:
  "(\<forall>exc. find (\<lambda>exc. exc_location_id exc = Some (location_id sch)) E = Some exc \<and>
          exc_exception_type exc = ''modified_hours'' \<longrightarrow>
          locationReport A E sch =
            slotsReport sch (filter (\<lambda>apt. apt_location_id apt = location_id sch) A)) \<and>
   getAvailability
     (db\<lparr>physician_availability_exceptions :=
        map (\<lambda>exc. exc\<lparr>exc_start_time := f exc, exc_end_time := g exc\<rparr>)
          (physician_availability_exceptions db)\<rparr>)
     pid dateParam locationId
   = getAvailability db pid dateParam locationId"
proof (intro conjI allI impI)
  fix exc :: availability_exception
  assume "find (\<lambda>exc. exc_location_id exc = Some (location_id sch)) E = Some exc \<and>
          exc_exception_type exc = ''modified_hours''"
  then show "locationReport A E sch =
      slotsReport sch (filter (\<lambda>apt. apt_location_id apt = location_id sch) A)"
    by (simp add: locationReport_def)
next
  show "getAvailability
     (db\<lparr>physician_availability_exceptions :=
        map (\<lambda>exc. exc\<lparr>exc_start_time := f exc, exc_end_time := g exc\<rparr>)
          (physician_availability_exceptions db)\<rparr>)
     pid dateParam locationId
   = getAvailability db pid dateParam locationId"
    unfolding getAvailability_def Let_def
    by (simp only: exceptionsQuery_override_times other_queries_exceptions
        locationReport_override_times)
qed

theorem modified_hours_ignored_witness:
  "find (\<lambda>exc. exc_location_id exc = Some (location_id thursdayHours)) [shortDay] = Some shortDay \<and>
   exc_exception_type shortDay = ''modified_hours'' \<and>
   locationReport [halfPastNine] [shortDay] thursdayHours =
     Some \<lparr>rep_location_id = 2, rep_available = True,
           rep_slots = [\<lparr>slot_start = 540, slot_end = 570, slot_available = True\<rparr>],
           rep_reason = None\<rparr> \<and>
   getAvailability
     (exampleDb\<lparr>physician_availability_exceptions :=
        map (\<lambda>exc. exc\<lparr>exc_start_time := Some 600, exc_end_time := Some 660\<rparr>) [shortDay]\<rparr>)
     1 (Some 0) (Some 2)
   = getAvailability (exampleDb\<lparr>physician_availability_exceptions := [shortDay]\<rparr>) 1 (Some 0) (Some 2)"
proof -
  have f: "find (\<lambda>exc. exc_location_id exc = Some (location_id thursdayHours)) [shortDay]
      = Some shortDay \<and> exc_exception_type shortDay = ''modified_hours''"
    by (simp add: shortDay_def thursdayHours_def)
  have s: "slotsReport thursdayHours
        (filter (\<lambda>apt. apt_location_id apt = location_id thursdayHours) [halfPastNine]) =
     Some \<lparr>rep_location_id = 2, rep_available = True,
           rep_slots = [\<lparr>slot_start = 540, slot_end = 570, slot_available = True\<rparr>],
           rep_reason = None\<rparr>"
    by code_simp
  note inst = modified_hours_ignored[where sch = thursdayHours and E = "[shortDay]"
      and A = "[halfPastNine]"
      and db = "exampleDb\<lparr>physician_availability_exceptions := [shortDay]\<rparr>"
      and f = "\<lambda>exc. Some 600" and g = "\<lambda>exc. Some 660" and pid = 1
      and dateParam = "Some 0" and locationId = "Some 2"]
  from inst f have "locationReport [halfPastNine] [shortDay] thursdayHours =
      slotsReport thursdayHours
        (filter (\<lambda>apt. apt_location_id apt = location_id thursdayHours) [halfPastNine])"
    by blast
  with s have r: "locationReport [halfPastNine] [shortDay] thursdayHours =
     Some \<lparr>rep_location_id = 2, rep_available = True,
           rep_slots = [\<lparr>slot_start = 540, slot_end = 570, slot_available = True\<rparr>],
           rep_reason = None\<rparr>" by simp
  from inst have g: "getAvailability
     (exampleDb\<lparr>physician_availability_exceptions :=
        map (\<lambda>exc. exc\<lparr>exc_start_time := Some 600, exc_end_time := Some 660\<rparr>) [shortDay]\<rparr>)
     1 (Some 0) (Some 2)
   = getAvailability (exampleDb\<lparr>physician_availability_exceptions := [shortDay]\<rparr>) 1 (Some 0) (Some 2)"
    by simp
  from f r g show ?thesis by blast
qed

text \<open>
  Claim C4. When the table holds an exception of kind unavailable for a physician, a
  location and a date, and no other exception for them, the handler called for that
  physician, date and location returns; the response is not available; every location
  report in it is for that location, is not available, has no slots and carries the
  reason of the exception; and there is one report for each active schedule of the
  physician at the location on that day of the week, whatever its hours.
\<close>

theorem unavailable_exception_suppresses:
  assumes exc: "exc \<in> set (physician_availability_exceptions db)"
      "exc_physician_id exc = pid" "exc_exception_date exc = date"
      "exc_location_id exc = Some loc" "exc_exception_type exc = ''unavailable''"
    and uniq: "\<forall>e\<in>set (physician_availability_exceptions db).
        exc_physician_id e = pid \<and> exc_exception_date e = date \<and> exc_location_id e = Some loc
          \<longrightarrow> e = exc"
  shows "\<exists>resp. getAvailability db pid (Some date) (Some loc) = Some (Inr resp) \<and>
           \<not> res_available resp \<and>
           (\<forall>rep\<in>set (res_locations resp).
              rep_location_id rep = loc \<and> \<not> rep_available rep \<and> rep_slots rep = [] \<and>
              rep_reason rep = Some (exc_reason exc)) \<and>
           length (res_locations resp) = length (schedulesQuery db pid (day date) (Some loc))"
proof -
  let ?S = "schedulesQuery db pid (day date) (Some loc)"
  let ?A = "appointmentsQuery db pid date"
  let ?E = "exceptionsQuery db pid date"
  let ?r = "\<lparr>rep_location_id = loc, rep_available = False, rep_slots = [],
             rep_reason = Some (exc_reason exc)\<rparr>"
  have found: "find (\<lambda>e. exc_location_id e = Some loc) ?E = Some exc"
  proof (rule find_unique)
    show "exc \<in> set ?E" using exc by (simp add: exceptionsQuery_def)
    show "exc_location_id exc = Some loc" by (rule exc(4))
    show "\<forall>y\<in>set ?E. exc_location_id y = Some loc \<longrightarrow> y = exc"
      using uniq by (simp add: exceptionsQuery_def)
  qed
  have each: "\<forall>sch\<in>set ?S. locationReport ?A ?E sch = Some ((\<lambda>_. ?r) sch)"
  proof
    fix sch
    assume "sch \<in> set ?S"
    then have "location_id sch = loc" by (simp add: schedulesQuery_def)
    with found exc(5) show "locationReport ?A ?E sch = Some ((\<lambda>_. ?r) sch)"
      by (simp add: locationReport_def)
  qed
  have reports: "those (map (locationReport ?A ?E) ?S) = Some (map (\<lambda>_. ?r) ?S)"
    using each by (rule those_map_cong_Some)
  show ?thesis
  proof (cases "?S = []")
    case True
    then have "getAvailability db pid (Some date) (Some loc)
        = Some (Inr \<lparr>res_available = False, res_locations = []\<rparr>)"
      by (simp add: getAvailability_def)
    with True show ?thesis by simp
  next
    case False
    with reports have "getAvailability db pid (Some date) (Some loc)
        = Some (Inr \<lparr>res_available = list_ex rep_available (map (\<lambda>_. ?r) ?S),
                     res_locations = map (\<lambda>_. ?r) ?S\<rparr>)"
      by (simp add: getAvailability_def Let_def)
    then show ?thesis by (simp add: list_ex_iff)
  qed
qed

theorem unavailable_exception_suppresses_witness:
  "getAvailability (exampleDb\<lparr>physician_availability_exceptions := [dayOff]\<rparr>) 1 (Some 0) (Some 2) =
     Some (Inr \<lparr>res_available = False, res_locations =
       [\<lparr>rep_location_id = 2, rep_available = False, rep_slots = [],
         rep_reason = Some (Some ''conference'')\<rparr>]\<rparr>)"
proof -
  let ?db = "exampleDb\<lparr>physician_availability_exceptions := [dayOff]\<rparr>"
  have a: "dayOff \<in> set (physician_availability_exceptions ?db)" by simp
  have b: "exc_physician_id dayOff = 1" "exc_exception_date dayOff = 0"
    "exc_location_id dayOff = Some 2" "exc_exception_type dayOff = ''unavailable''"
    by (simp_all add: dayOff_def)
  have u: "\<forall>e\<in>set (physician_availability_exceptions ?db).
      exc_physician_id e = 1 \<and> exc_exception_date e = 0 \<and> exc_location_id e = Some 2 \<longrightarrow> e = dayOff"
    by simp
  have n: "length (schedulesQuery ?db 1 (day 0) (Some 2)) = 1"
    by code_simp
  from unavailable_exception_suppresses[OF a b u] n obtain resp where
    r: "getAvailability ?db 1 (Some 0) (Some 2) = Some (Inr resp)" "\<not> res_available resp"
      "\<forall>rep\<in>set (res_locations resp). rep_location_id rep = 2 \<and> \<not> rep_available rep \<and>
          rep_slots rep = [] \<and> rep_reason rep = Some (exc_reason dayOff)"
      "length (res_locations resp) = 1"
    by auto
  from r(4) obtain rep where one: "res_locations resp = [rep]"
    by (cases "res_locations resp") auto
  with r(3) have "rep = \<lparr>rep_location_id = 2, rep_available = False, rep_slots = [],
         rep_reason = Some (Some ''conference'')\<rparr>"
    by (simp add: dayOff_def)
  with one r(2) have "resp = \<lparr>res_available = False, res_locations =
       [\<lparr>rep_location_id = 2, rep_available = False, rep_slots = [],
         rep_reason = Some (Some ''conference'')\<rparr>]\<rparr>"
    by simp
  with r(1) show ?thesis by simp
qed

text \<open>
  Claim C5 as stated fails: an exception of kind unavailable with no location leaves
  the slots of location 2 in the response.
\<close>

theorem null_location_counterexample:
  "getAvailability (exampleDb\<lparr>physician_availability_exceptions := [dayOffEverywhere]\<rparr>)
     1 (Some 0) (Some 2) =
     Some (Inr \<lparr>res_available = True, res_locations =
       [\<lparr>rep_location_id = 2, rep_available = True,
         rep_slots = [\<lparr>slot_start = 540, slot_end = 570, slot_available = True\<rparr>],
         rep_reason = None\<rparr>]\<rparr>) \<and>
   exc_exception_type dayOffEverywhere = ''unavailable'' \<and>
   exc_location_id dayOffEverywhere = None"
  by code_simp

text \<open>
  Claim C5, amended. The handler looks an exception up by the location of the schedule
  only: removing every exception that has no location leaves the response unchanged.
\<close>

theorem null_location_exception_ignored:
  "getAvailability
     (db\<lparr>physician_availability_exceptions :=
        filter (\<lambda>exc. exc_location_id exc \<noteq> None) (physician_availability_exceptions db)\<rparr>)
     pid dateParam locationId
   = getAvailability db pid dateParam locationId"
  unfolding getAvailability_def Let_def
  by (simp only: exceptionsQuery_filter other_queries_exceptions locationReport_null_location)

theorem null_location_exception_ignored_witness:
  "getAvailability (exampleDb\<lparr>physician_availability_exceptions := []\<rparr>) 1 (Some 0) (Some 2)
   = getAvailability (exampleDb\<lparr>physician_availability_exceptions := [dayOffEverywhere]\<rparr>)
       1 (Some 0) (Some 2)"
  using null_location_exception_ignored[where
      db = "exampleDb\<lparr>physician_availability_exceptions := [dayOffEverywhere]\<rparr>"
      and pid = 1 and dateParam = "Some 0" and locationId = "Some 2"]
  by (simp add: dayOffEverywhere_def)

section \<open>The alternatives\<close>


text \<open>The alternatives handler returns.\<close>

lemma daysLoop_returns:
  "\<exists>r. daysLoop db today dateRange p i alts = Some r"
proof (induction "dateRange - i" arbitrary: i alts rule: less_induct)
  case less
  show ?case
  proof (cases "i < dateRange")
    case False
    then show ?thesis by (simp add: daysLoop.simps[of db today dateRange p i alts])
  next
    case True
    then have smaller: "dateRange - Suc i < dateRange - i" by simp
    note again = less.hyps[OF smaller]
    let ?rows = "filter (\<lambda>pls. physician_id pls = alt_id p \<and> location_id pls = alt_location_id p \<and>
                            day_of_week pls = day (today + int i) \<and> is_active pls)
                   (physician_location_schedules db)"
    show ?thesis
    proof (cases ?rows)
      case Nil
      with True again[of alts] show ?thesis
        by (simp add: daysLoop.simps[of db today dateRange p i alts])
    next
      case (Cons row0 rest)
      let ?existing = "filter (\<lambda>apt. apt_physician_id apt = alt_id p \<and>
                          apt_location_id apt = alt_location_id p \<and>
                          apt_appointment_date apt = today + int i \<and> occupies apt)
                     (appointments db)"
      from generateTimeSlots_returns[of 30 row0 ?existing] obtain slots where
        slots: "generateTimeSlots row0 ?existing 30 = Some slots" by auto
      let ?pushed = "alts @ [\<lparr>opt_physician_id = alt_id p, opt_location_id = alt_location_id p,
                 opt_date = today + int i, opt_available_slots = take 3 slots\<rparr>]"
      from True Cons slots again[of alts] again[of ?pushed] show ?thesis
        by (simp add: daysLoop.simps[of db today dateRange p i alts] Let_def)
    qed
  qed
qed

lemma physiciansLoop_returns:
  "\<exists>r. physiciansLoop db today dateRange ps alts = Some r"
proof (induction ps arbitrary: alts)
  case Nil
  then show ?case by simp
next
  case (Cons p ps)
  from daysLoop_returns[of db today dateRange p 0 alts] obtain found where
    "daysLoop db today dateRange p 0 alts = Some found" by auto
  with Cons[of found] show ?case by simp
qed

lemma collectAlternatives_returns:
  "\<exists>alternatives. collectAlternatives db today dateRange rows = Some alternatives"
  unfolding collectAlternatives_def by (rule physiciansLoop_returns)




text \<open>
  The loop itself never reads the exceptions: given the row of a physician who is
  unavailable at location 2 on day 0, it collects that physician, location and day
  with a slot, while the availability handler reports them as not available.
\<close>

lemma collectAlternatives_ignores_exceptions:
  "collectAlternatives (exampleDb\<lparr>physician_availability_exceptions := [dayOff]\<rparr>) 0 1
       [\<lparr>alt_id = 1, alt_location_id = 2\<rparr>] =
     Some [\<lparr>opt_physician_id = 1, opt_location_id = 2, opt_date = 0,
            opt_available_slots = [\<lparr>slot_start = 540, slot_end = 570, slot_available = True\<rparr>]\<rparr>] \<and>
   getAvailability (exampleDb\<lparr>physician_availability_exceptions := [dayOff]\<rparr>) 1 (Some 0) (Some 2) =
     Some (Inr \<lparr>res_available = False, res_locations =
       [\<lparr>rep_location_id = 2, rep_available = False, rep_slots = [],
         rep_reason = Some (Some ''conference'')\<rparr>]\<rparr>)"
  by code_simp




section \<open>The conflict check\<close>

lemma resolvePatient_error:
  "resolvePatient db usr body = Inl e \<Longrightarrow> e = PatientProfileNotFound"
  by (auto simp: resolvePatient_def split: if_splits list.splits)

lemma createAppointment_conflict_iff:
  "fst (createAppointment runInsert db usr body) = Inl SlotConflict \<longleftrightarrow>
     (\<exists>patientId. resolvePatient db usr body = Inr patientId) \<and>
     (\<exists>pl\<in>set (physician_locations db).
        pl_physician_id pl = req_physicianId body \<and> pl_location_id pl = req_locationId body) \<and>
     (\<exists>apt\<in>set (appointments db).
        apt_physician_id apt = req_physicianId body \<and> apt_location_id apt = req_locationId body \<and>
        apt_appointment_date apt = req_appointmentDate body \<and>
        apt_start_time apt = req_startTime body \<and>
        apt_status apt \<noteq> Cancelled \<and> apt_status apt \<noteq> No_show)"
proof (cases "resolvePatient db usr body")
  case (Inl e)
  with resolvePatient_error[OF Inl] show ?thesis by (simp add: createAppointment_def)
next
  case (Inr patientId)
  show ?thesis
  proof (cases "runInsert db patientId body")
    case None
    with Inr show ?thesis
      by (auto simp: createAppointment_def Let_def existingAppointment_def occupies_def
          filter_empty_conv)
  next
    case (Some written)
    with Inr show ?thesis
      by (cases written)
         (auto simp: createAppointment_def Let_def existingAppointment_def occupies_def
          filter_empty_conv)
  qed
qed

lemma createAppointment_no_write:
  "fst (createAppointment runInsert db usr body) = Inl SlotConflict \<Longrightarrow>
   snd (createAppointment runInsert db usr body) = db"
  by (auto simp: createAppointment_def Let_def split: sum.splits if_splits option.splits prod.splits)

lemma runStatements_not_conflict:
  "fst (runStatements runUpdate db aid body) \<noteq> Inl SlotConflict"
  by (auto simp: runStatements_def split: option.splits prod.splits)

lemma updateAppointment_conflict_iff:
  assumes found: "filter (\<lambda>apt. apt_id apt = aid) (appointments db) = appointment # rest"
    and resched: "isReschedule body"
  shows "fst (updateAppointment runUpdate db usr aid body) = Inl SlotConflict \<longleftrightarrow>
     \<not> notOwner db usr appointment \<and> \<not> notAtNewLocation db body appointment \<and>
     (\<exists>apt\<in>set (appointments db).
        apt_physician_id apt = orElse (upd_physicianId body) (apt_physician_id appointment) \<and>
        apt_location_id apt = orElse (upd_locationId body) (apt_location_id appointment) \<and>
        apt_appointment_date apt = orElse (upd_appointmentDate body) (apt_appointment_date appointment) \<and>
        apt_start_time apt = orElse (upd_startTime body) (apt_start_time appointment) \<and>
        apt_status apt \<noteq> Cancelled \<and> apt_status apt \<noteq> No_show \<and> apt_id apt \<noteq> aid)"
proof (cases "notOwner db usr appointment \<or> notAtNewLocation db body appointment")
  case True
  with found resched show ?thesis by (auto simp: updateAppointment_def Let_def)
next
  case False
  with found resched runStatements_not_conflict[of runUpdate db aid body] show ?thesis
    by (auto simp: updateAppointment_def Let_def conflictCheck_def occupies_def filter_empty_conv)
qed

lemma updateAppointment_no_write:
  "fst (updateAppointment runUpdate db usr aid body) = Inl SlotConflict \<Longrightarrow>
   snd (updateAppointment runUpdate db usr aid body) = db"
proof (cases "filter (\<lambda>apt. apt_id apt = aid) (appointments db)")
  case Nil
  then show ?thesis by (simp add: updateAppointment_def)
next
  case (Cons appointment rest)
  assume conflict: "fst (updateAppointment runUpdate db usr aid body) = Inl SlotConflict"
  from runStatements_not_conflict[of runUpdate db aid body] conflict Cons show ?thesis
    by (auto simp: updateAppointment_def Let_def split: if_splits)
qed

text \<open>
  Claim C2. The create handler answers "Time slot is no longer available" exactly when
  the request reaches the check (the patient is resolved and the physician works at
  the location) and an appointment with the same physician, location, date and start
  time exists whose status is neither cancelled nor no-show. The update handler, for
  a request that reschedules an existing appointment, answers so exactly when the
  request reaches the check and such an appointment other than the one being
  rescheduled exists for the new physician, location, date and start time. In both
  handlers that answer leaves the tables as they were.
\<close>

theorem conflict_guard:
  "(fst (createAppointment runInsert db usr body) = Inl SlotConflict \<longleftrightarrow>
      (\<exists>patientId. resolvePatient db usr body = Inr patientId) \<and>
      (\<exists>pl\<in>set (physician_locations db).
         pl_physician_id pl = req_physicianId body \<and> pl_location_id pl = req_locationId body) \<and>
      (\<exists>apt\<in>set (appointments db).
         apt_physician_id apt = req_physicianId body \<and> apt_location_id apt = req_locationId body \<and>
         apt_appointment_date apt = req_appointmentDate body \<and>
         apt_start_time apt = req_startTime body \<and>
         apt_status apt \<noteq> Cancelled \<and> apt_status apt \<noteq> No_show)) \<and>
   (fst (createAppointment runInsert db usr body) = Inl SlotConflict \<longrightarrow>
      snd (createAppointment runInsert db usr body) = db) \<and>
   (\<forall>appointment rest.
      filter (\<lambda>apt. apt_id apt = aid) (appointments db) = appointment # rest \<and> isReschedule upd \<longrightarrow>
      (fst (updateAppointment runUpdate db usr aid upd) = Inl SlotConflict \<longleftrightarrow>
         \<not> notOwner db usr appointment \<and> \<not> notAtNewLocation db upd appointment \<and>
         (\<exists>apt\<in>set (appointments db).
            apt_physician_id apt = orElse (upd_physicianId upd) (apt_physician_id appointment) \<and>
            apt_location_id apt = orElse (upd_locationId upd) (apt_location_id appointment) \<and>
            apt_appointment_date apt =
              orElse (upd_appointmentDate upd) (apt_appointment_date appointment) \<and>
            apt_start_time apt = orElse (upd_startTime upd) (apt_start_time appointment) \<and>
            apt_status apt \<noteq> Cancelled \<and> apt_status apt \<noteq> No_show \<and> apt_id apt \<noteq> aid))) \<and>
   (fst (updateAppointment runUpdate db usr aid upd) = Inl SlotConflict \<longrightarrow>
      snd (updateAppointment runUpdate db usr aid upd) = db)"
proof (intro conjI allI impI)
  show "fst (createAppointment runInsert db usr body) = Inl SlotConflict \<longleftrightarrow>
      (\<exists>patientId. resolvePatient db usr body = Inr patientId) \<and>
      (\<exists>pl\<in>set (physician_locations db).
         pl_physician_id pl = req_physicianId body \<and> pl_location_id pl = req_locationId body) \<and>
      (\<exists>apt\<in>set (appointments db).
         apt_physician_id apt = req_physicianId body \<and> apt_location_id apt = req_locationId body \<and>
         apt_appointment_date apt = req_appointmentDate body \<and>
         apt_start_time apt = req_startTime body \<and>
         apt_status apt \<noteq> Cancelled \<and> apt_status apt \<noteq> No_show)"
    by (rule createAppointment_conflict_iff)
next
  assume "fst (createAppointment runInsert db usr body) = Inl SlotConflict"
  then show "snd (createAppointment runInsert db usr body) = db"
    by (rule createAppointment_no_write)
next
  fix appointment :: appointment and rest
  assume "filter (\<lambda>apt. apt_id apt = aid) (appointments db) = appointment # rest \<and> isReschedule upd"
  then show "fst (updateAppointment runUpdate db usr aid upd) = Inl SlotConflict \<longleftrightarrow>
         \<not> notOwner db usr appointment \<and> \<not> notAtNewLocation db upd appointment \<and>
         (\<exists>apt\<in>set (appointments db).
            apt_physician_id apt = orElse (upd_physicianId upd) (apt_physician_id appointment) \<and>
            apt_location_id apt = orElse (upd_locationId upd) (apt_location_id appointment) \<and>
            apt_appointment_date apt =
              orElse (upd_appointmentDate upd) (apt_appointment_date appointment) \<and>
            apt_start_time apt = orElse (upd_startTime upd) (apt_start_time appointment) \<and>
            apt_status apt \<noteq> Cancelled \<and> apt_status apt \<noteq> No_show \<and> apt_id apt \<noteq> aid)"
    using updateAppointment_conflict_iff by blast
next
  assume "fst (updateAppointment runUpdate db usr aid upd) = Inl SlotConflict"
  then show "snd (updateAppointment runUpdate db usr aid upd) = db"
    by (rule updateAppointment_no_write)
qed

theorem conflict_guard_witness:
  "fst (createAppointment insertRow bookedDb frontDesk sameSlotRequest) = Inl SlotConflict \<and>
   snd (createAppointment insertRow bookedDb frontDesk sameSlotRequest) = bookedDb \<and>
   fst (updateAppointment updateRow bookedDb frontDesk 8 moveToHalfPastNine) = Inl SlotConflict \<and>
   snd (updateAppointment updateRow bookedDb frontDesk 8 moveToHalfPastNine) = bookedDb"
proof -
  note inst = conflict_guard[where runInsert = insertRow and db = bookedDb and usr = frontDesk
      and body = sameSlotRequest and aid = 8 and upd = moveToHalfPastNine
      and runUpdate = updateRow]
  have patient: "\<exists>patientId. resolvePatient bookedDb frontDesk sameSlotRequest = Inr patientId"
    by (simp add: resolvePatient_def frontDesk_def)
  have place: "\<exists>pl\<in>set (physician_locations bookedDb).
      pl_physician_id pl = req_physicianId sameSlotRequest \<and>
      pl_location_id pl = req_locationId sameSlotRequest"
    by (simp add: bookedDb_def exampleDb_def sameSlotRequest_def)
  have taken: "\<exists>apt\<in>set (appointments bookedDb).
      apt_physician_id apt = req_physicianId sameSlotRequest \<and>
      apt_location_id apt = req_locationId sameSlotRequest \<and>
      apt_appointment_date apt = req_appointmentDate sameSlotRequest \<and>
      apt_start_time apt = req_startTime sameSlotRequest \<and>
      apt_status apt \<noteq> Cancelled \<and> apt_status apt \<noteq> No_show"
    by (simp add: bookedDb_def exampleDb_def sameSlotRequest_def halfPastNine_def)
  from inst patient place taken
  have c1: "fst (createAppointment insertRow bookedDb frontDesk sameSlotRequest) = Inl SlotConflict"
    by blast
  with inst have c2: "snd (createAppointment insertRow bookedDb frontDesk sameSlotRequest) = bookedDb"
    by blast
  have row: "filter (\<lambda>apt. apt_id apt = 8) (appointments bookedDb) = tenOClock # [] \<and>
      isReschedule moveToHalfPastNine"
    by (simp add: bookedDb_def halfPastNine_def tenOClock_def isReschedule_def
        moveToHalfPastNine_def)
  have reach: "\<not> notOwner bookedDb frontDesk tenOClock \<and>
      \<not> notAtNewLocation bookedDb moveToHalfPastNine tenOClock"
    by (simp add: notOwner_def frontDesk_def notAtNewLocation_def moveToHalfPastNine_def)
  have other: "\<exists>apt\<in>set (appointments bookedDb).
      apt_physician_id apt = orElse (upd_physicianId moveToHalfPastNine) (apt_physician_id tenOClock) \<and>
      apt_location_id apt = orElse (upd_locationId moveToHalfPastNine) (apt_location_id tenOClock) \<and>
      apt_appointment_date apt =
        orElse (upd_appointmentDate moveToHalfPastNine) (apt_appointment_date tenOClock) \<and>
      apt_start_time apt = orElse (upd_startTime moveToHalfPastNine) (apt_start_time tenOClock) \<and>
      apt_status apt \<noteq> Cancelled \<and> apt_status apt \<noteq> No_show \<and> apt_id apt \<noteq> 8"
    by (simp add: bookedDb_def halfPastNine_def tenOClock_def moveToHalfPastNine_def orElse_def)
  from inst row reach other
  have u1: "fst (updateAppointment updateRow bookedDb frontDesk 8 moveToHalfPastNine)
      = Inl SlotConflict"
    by blast
  with inst
  have u2: "snd (updateAppointment updateRow bookedDb frontDesk 8 moveToHalfPastNine) = bookedDb"
    by blast
  from c1 c2 u1 u2 show ?thesis by blast
qed

end
